theory Spec2Isabelle
  imports Main
begin

section \<open>Panics and the result type\<close>

text \<open>
  The Go program has no error values of its own apart from the (always nil) second result
  of \<open>NewNetwork\<close>; everything that goes wrong is a run-time panic. A panic is the left
  summand of the result.
\<close>

datatype panic =
    NilDereference
  | ShapeMismatch
  | IndexOutOfRange
  | NegativeLength
  | ZeroLength

definition bindE :: "panic + 'x \<Rightarrow> ('x \<Rightarrow> panic + 'y) \<Rightarrow> panic + 'y" where
  "bindE r k = (case r of Inl e \<Rightarrow> Inl e | Inr v \<Rightarrow> k v)"

text \<open>Go's \<open>int\<close> on the 64-bit targets: sums wrap around in two's complement.\<close>

definition wrap64 :: "int \<Rightarrow> int" where
  "wrap64 x = (x + 2 ^ 63) mod 2 ^ 64 - 2 ^ 63"

definition index :: "'x list \<Rightarrow> int \<Rightarrow> panic + 'x" where
  "index xs j = (if 0 \<le> j \<and> j < int (length xs) then Inr (xs ! nat j) else Inl IndexOutOfRange)"

definition set_index :: "'x list \<Rightarrow> int \<Rightarrow> 'x \<Rightarrow> panic + 'x list" where
  "set_index xs j v =
     (if 0 \<le> j \<and> j < int (length xs) then Inr (xs[nat j := v]) else Inl IndexOutOfRange)"

section \<open>Dense matrices\<close>

text \<open>
  \<open>mat.Dense\<close> of gonum: a row count, a column count and the elements in one row-major
  slice. The element type is left open: the operations below use \<open>0\<close>, \<open>+\<close>, \<open>-\<close> and
  \<open>*\<close> of the element type and no law about them, so every statement holds for
  \<open>float64\<close> arithmetic as it is.
\<close>

record 'a Dense =
  rows :: nat
  cols :: nat
  data :: "'a list"

definition elem :: "'a Dense \<Rightarrow> nat \<Rightarrow> nat \<Rightarrow> 'a" where
  "elem m i j = data m ! (i * cols m + j)"

definition tabulate :: "nat \<Rightarrow> nat \<Rightarrow> (nat \<Rightarrow> nat \<Rightarrow> 'a) \<Rightarrow> 'a Dense" where
  "tabulate r c f =
     \<lparr>rows = r, cols = c, data = concat (map (\<lambda>i. map (f i) [0..<c]) [0..<r])\<rparr>"

text \<open>
  \<open>mat.NewDense(r, c, data)\<close>: panics on a zero dimension and on a slice of the wrong
  length; with \<open>nil\<close> data the matrix is filled with zeros.
\<close>

definition NewDense :: "nat \<Rightarrow> nat \<Rightarrow> 'a::zero list option \<Rightarrow> panic + 'a Dense" where
  "NewDense r c d =
     (if r = 0 \<or> c = 0 then Inl ZeroLength
      else case d of
        None \<Rightarrow> Inr \<lparr>rows = r, cols = c, data = replicate (r * c) 0\<rparr>
      | Some xs \<Rightarrow>
          if length xs = r * c then Inr \<lparr>rows = r, cols = c, data = xs\<rparr>
          else Inl ShapeMismatch)"

text \<open>\<open>RawRowView(i)\<close>: the slice of row \<open>i\<close>; panics when there is no such row.\<close>

definition RawRowView :: "'a Dense \<Rightarrow> nat \<Rightarrow> panic + 'a list" where
  "RawRowView m i =
     (if i < rows m then Inr (take (cols m) (drop (i * cols m) (data m)))
      else Inl IndexOutOfRange)"

text \<open>\<open>T()\<close>: the transpose, with no shape precondition.\<close>

definition T :: "'a Dense \<Rightarrow> 'a Dense" where
  "T m = tabulate (cols m) (rows m) (\<lambda>i j. elem m j i)"

subsection \<open>The matrix helpers of the repository\<close>

definition dot :: "'a::{zero,plus,times} Dense \<Rightarrow> 'a Dense \<Rightarrow> nat \<Rightarrow> nat \<Rightarrow> 'a" where
  "dot a b i j = foldl (+) 0 (map (\<lambda>k. elem a i k * elem b k j) [0..<cols a])"

definition Multiply :: "'a::{zero,plus,times} Dense \<Rightarrow> 'a Dense \<Rightarrow> panic + 'a Dense" where
  \<comment> \<open>Modelled from the spec: the helper \<open>Multiply\<close> is not among the sources. Matrix
      multiply; \<open>rows(B) == cols(A)\<close> required, fails otherwise.\<close>
  "Multiply a b =
     (if rows b = cols a then Inr (tabulate (rows a) (cols b) (dot a b))
      else Inl ShapeMismatch)"

definition zip_elems :: "('a \<Rightarrow> 'a \<Rightarrow> 'a) \<Rightarrow> 'a Dense \<Rightarrow> 'a Dense \<Rightarrow> panic + 'a Dense" where
  "zip_elems f a b =
     (if rows a = rows b \<and> cols a = cols b
      then Inr (tabulate (rows a) (cols a) (\<lambda>i j. f (elem a i j) (elem b i j)))
      else Inl ShapeMismatch)"

definition Add :: "'a::plus Dense \<Rightarrow> 'a Dense \<Rightarrow> panic + 'a Dense" where
  \<comment> \<open>Modelled from the spec: the helper \<open>Add\<close> is not among the sources. Element-wise
      add; same shape required.\<close>
  "Add a b = zip_elems (+) a b"

definition Subtract :: "'a::minus Dense \<Rightarrow> 'a Dense \<Rightarrow> panic + 'a Dense" where
  \<comment> \<open>Modelled from the spec: the helper \<open>Subtract\<close> is not among the sources.
      Element-wise subtract; same shape required.\<close>
  "Subtract a b = zip_elems (-) a b"

definition MultiplyElems :: "'a::times Dense \<Rightarrow> 'a Dense \<Rightarrow> panic + 'a Dense" where
  \<comment> \<open>Modelled from the spec: the helper \<open>MultiplyElems\<close> is not among the sources.
      Element-wise multiply; same shape required.\<close>
  "MultiplyElems a b = zip_elems (*) a b"

definition Scale :: "'a::times \<Rightarrow> 'a Dense \<Rightarrow> 'a Dense" where
  \<comment> \<open>Modelled from the spec: the helper \<open>Scale\<close> is not among the sources. Scalar
      multiply.\<close>
  "Scale s m = tabulate (rows m) (cols m) (\<lambda>i j. s * elem m i j)"

definition Map :: "(nat \<Rightarrow> nat \<Rightarrow> 'a \<Rightarrow> 'a) option \<Rightarrow> 'a Dense \<Rightarrow> panic + 'a Dense" where
  \<comment> \<open>Modelled from the spec: the helper \<open>Map\<close> is not among the sources. Element-wise
      map with a function \<open>(row, col, value) \<rightarrow> value\<close>. A Go function value can be nil,
      and calling it panics.\<close>
  "Map fn m =
     (case fn of
        None \<Rightarrow> Inl NilDereference
      | Some f \<Rightarrow> Inr (tabulate (rows m) (cols m) (\<lambda>i j. f i j (elem m i j))))"

section \<open>The store\<close>

text \<open>
  Every field of a layer is a \<open>*mat.Dense\<close>, and the forward pass writes through two of
  these pointers while the other passes replace pointers. The store keeps the matrices
  that pointers point to: address \<open>p > 0\<close> is cell \<open>p - 1\<close> of the list, address \<open>0\<close>
  is the nil pointer, and allocation appends a cell, so a new address is never one that
  is in use. The other two fields are ghost state: \<open>draws\<close> counts the calls of the
  random weight initializer, \<open>trace\<close> records which pass ran on which layer.
\<close>

datatype event = EvSample nat | EvForward nat | EvBackward nat | EvUpdate nat

record 'a state =
  cells :: "'a Dense list"
  draws :: nat
  trace :: "event list"

definition valid :: "'a state \<Rightarrow> nat \<Rightarrow> bool" where
  "valid s p \<longleftrightarrow> 0 < p \<and> p \<le> length (cells s)"

definition deref :: "'a state \<Rightarrow> nat \<Rightarrow> panic + 'a Dense" where
  "deref s p = (if valid s p then Inr (cells s ! (p - 1)) else Inl NilDereference)"

definition assign :: "'a state \<Rightarrow> nat \<Rightarrow> 'a Dense \<Rightarrow> panic + 'a state" where
  "assign s p m =
     (if valid s p then Inr (s\<lparr>cells := (cells s)[p - 1 := m]\<rparr>) else Inl NilDereference)"

definition alloc :: "'a state \<Rightarrow> 'a Dense \<Rightarrow> nat \<times> 'a state" where
  "alloc s m = (Suc (length (cells s)), s\<lparr>cells := cells s @ [m]\<rparr>)"

definition emit :: "event \<Rightarrow> 'a state \<Rightarrow> 'a state" where
  "emit e s = s\<lparr>trace := trace s @ [e]\<rparr>"

definition Update :: "'a state \<Rightarrow> 'a Dense \<Rightarrow> nat \<times> 'a state" where
  \<comment> \<open>Modelled from the spec: the helper \<open>Update\<close> is not among the sources, and the spec
      does not list it. At each call it turns the result of a matrix helper into a
      \<open>*mat.Dense\<close>; the model allocates a cell holding that matrix.\<close>
  "Update s m = alloc s m"

section \<open>Layers and networks\<close>

record 'a Layer =
  Bias :: nat
  Weights :: nat
  Delta :: nat
  Gradient :: nat
  Activations :: nat
  ActivationFunc :: "(nat \<Rightarrow> nat \<Rightarrow> 'a \<Rightarrow> 'a) option"
  ActivationPrimeFunc :: "(nat \<Rightarrow> nat \<Rightarrow> 'a \<Rightarrow> 'a) option"
  IsLastLayer :: bool

record 'a Network =
  Layers :: "'a Layer list"
  NeuronsPerLayer :: int
  NumberOfLayers :: int

subsection \<open>ForwardPass\<close>

text \<open>
  A matrix that a function only reads is passed as its value at the call: \<open>input\<close> is
  read by the first statement, before anything is written.
\<close>

definition ForwardPass :: "'a::{zero,plus,times} state \<Rightarrow> 'a Layer \<Rightarrow> 'a Dense \<Rightarrow> panic + 'a state" where
  "ForwardPass s layer input =
     bindE (deref s (Weights layer)) (\<lambda>w.
     bindE (Multiply input w) (\<lambda>z.
     bindE (deref s (Bias layer)) (\<lambda>b.
     bindE (Add z b) (\<lambda>zB.
     bindE (Map (ActivationFunc layer) zB) (\<lambda>a.
     case Update s a of (pa, s1) \<Rightarrow>
     bindE (deref s1 pa) (\<lambda>va.
     bindE (assign s1 (Activations layer) va) (\<lambda>s2.
     bindE (Map (ActivationPrimeFunc layer) zB) (\<lambda>g.
     case Update s2 g of (pg, s3) \<Rightarrow>
     bindE (deref s3 pg) (\<lambda>vg.
     assign s3 (Gradient layer) vg)))))))))"

subsection \<open>BackwardPass\<close>

text \<open>
  \<open>rightLayer\<close> is passed by value: a copy of the struct, that is of its pointers. The
  call replaces the pointer \<open>layer.Delta\<close>; the matrix the old pointer led to is not
  touched.
\<close>

definition BackwardPass ::
  "'a::{zero,plus,minus,times} state \<Rightarrow> 'a Layer \<Rightarrow> 'a Dense \<Rightarrow> 'a Layer \<Rightarrow> panic + ('a Layer \<times> 'a state)" where
  "BackwardPass s layer target rightLayer =
     (if IsLastLayer layer then
        bindE (deref s (Activations layer)) (\<lambda>a.
        bindE (Subtract a target) (\<lambda>err.
        bindE (deref s (Gradient layer)) (\<lambda>g.
        bindE (MultiplyElems err g) (\<lambda>d.
        case Update s d of (pd, s1) \<Rightarrow> Inr (layer\<lparr>Delta := pd\<rparr>, s1)))))
      else
        bindE (deref s (Delta rightLayer)) (\<lambda>dR.
        bindE (deref s (Weights rightLayer)) (\<lambda>wR.
        bindE (Multiply dR (T wR)) (\<lambda>m.
        bindE (deref s (Gradient layer)) (\<lambda>g.
        bindE (MultiplyElems m g) (\<lambda>d.
        case Update s d of (pd, s1) \<Rightarrow> Inr (layer\<lparr>Delta := pd\<rparr>, s1)))))))"

subsection \<open>UpdateWeights\<close>

definition UpdateWeights ::
  "'a::{zero,plus,minus,times} state \<Rightarrow> 'a Layer \<Rightarrow> 'a \<Rightarrow> 'a Dense \<Rightarrow> panic + ('a Layer \<times> 'a state)" where
  "UpdateWeights s layer learningRate leftA =
     bindE (deref s (Delta layer)) (\<lambda>d.
     bindE (Multiply (T leftA) d) (\<lambda>ad.
     let change = Scale learningRate ad in
     bindE (deref s (Weights layer)) (\<lambda>w.
     bindE (Subtract w change) (\<lambda>w'.
     case Update s w' of (pw, s1) \<Rightarrow>
     let layer1 = layer\<lparr>Weights := pw\<rparr> in
     bindE (deref s1 (Delta layer1)) (\<lambda>d1.
     let dB = Scale learningRate d1 in
     bindE (deref s1 (Bias layer1)) (\<lambda>b.
     bindE (Subtract b dB) (\<lambda>b'.
     case Update s1 b' of (pb, s2) \<Rightarrow> Inr (layer1\<lparr>Bias := pb\<rparr>, s2))))))))"

subsection \<open>Predict\<close>

text \<open>
  The \<open>range\<close> loop copies each layer struct into the loop variable; \<open>ForwardPass\<close>
  writes through the copied pointers, so the layer structs of the network stay as they
  are and only the store changes. \<open>idx\<close> is the position of the layer, for the trace.
  The result is the matrix the returned pointer leads to when \<open>Predict\<close> returns.
\<close>

fun forward_loop ::
  "'a::{zero,plus,times} state \<Rightarrow> 'a Layer list \<Rightarrow> nat \<Rightarrow> 'a Dense \<Rightarrow> panic + ('a Dense \<times> 'a state)" where
  "forward_loop s [] idx currentInput = Inr (currentInput, s)"
| "forward_loop s (layer # rest) idx currentInput =
     bindE (ForwardPass (emit (EvForward idx) s) layer currentInput) (\<lambda>s1.
     bindE (deref s1 (Activations layer)) (\<lambda>a.
     forward_loop s1 rest (Suc idx) a))"

definition Predict ::
  "'a::{zero,plus,times} state \<Rightarrow> 'a Network \<Rightarrow> 'a Dense \<Rightarrow> panic + ('a Dense \<times> 'a state)" where
  "Predict s network input = forward_loop s (Layers network) 0 input"

subsection \<open>Train\<close>

text \<open>
  The backward loop \<open>for j := NumberOfLayers - 1; j >= 0; j--\<close>: the counter of the
  recursion is \<open>j + 1\<close>, the number of layers still to visit.
\<close>

fun backward_loop ::
  "'a::{zero,plus,minus,times} state \<Rightarrow> 'a Network \<Rightarrow> 'a Dense \<Rightarrow> nat \<Rightarrow> nat \<Rightarrow> nat \<Rightarrow> 'a Layer
     \<Rightarrow> panic + ('a Network \<times> 'a Layer \<times> 'a state)" where
  "backward_loop s network batchTarget targetCols i 0 lastLayer = Inr (network, lastLayer, s)"
| "backward_loop s network batchTarget targetCols i (Suc j) lastLayer =
     bindE (RawRowView batchTarget i) (\<lambda>targetRowFloat.
     bindE (NewDense 1 targetCols (Some targetRowFloat)) (\<lambda>tempTarget.
     bindE (index (Layers network) (int j)) (\<lambda>layer.
     bindE (BackwardPass (emit (EvBackward j) s) layer tempTarget lastLayer) (\<lambda>(layer', s1).
     let network1 = network\<lparr>Layers := (Layers network)[j := layer']\<rparr> in
     bindE (index (Layers network1) (int j)) (\<lambda>lastLayer1.
     backward_loop s1 network1 batchTarget targetCols i j lastLayer1)))))"

function update_loop ::
  "'a::{zero,plus,minus,times} state \<Rightarrow> 'a Network \<Rightarrow> 'a \<Rightarrow> 'a Dense \<Rightarrow> nat
     \<Rightarrow> panic + ('a Network \<times> 'a state)" where
  "update_loop s network learningRate currInput j =
     (if j < length (Layers network) then
        bindE (UpdateWeights (emit (EvUpdate j) s) (Layers network ! j) learningRate currInput)
          (\<lambda>(layer', s1).
        let network1 = network\<lparr>Layers := (Layers network)[j := layer']\<rparr> in
        bindE (index (Layers network1) (int j)) (\<lambda>layer1.
        bindE (deref s1 (Activations layer1)) (\<lambda>a.
        update_loop s1 network1 learningRate a (Suc j))))
      else Inr (network, s))"
  by pat_completeness auto
termination
  by (relation "measure (\<lambda>(s, network, learningRate, currInput, j). length (Layers network) - j)")
     auto

text \<open>The body of the loop over the rows of the batch: one training sample.\<close>

definition train_sample ::
  "'a::{zero,plus,minus,times} state \<Rightarrow> 'a Network \<Rightarrow> 'a Dense \<Rightarrow> 'a Dense \<Rightarrow> 'a \<Rightarrow> nat \<Rightarrow> nat
     \<Rightarrow> nat \<Rightarrow> 'a Layer \<Rightarrow> panic + ('a Network \<times> 'a Layer \<times> 'a state)" where
  "train_sample s network batchInput batchTarget learningRate targetCols inputCols i lastLayer =
     bindE (RawRowView batchInput i) (\<lambda>inputRowFloat.
     bindE (NewDense 1 inputCols (Some inputRowFloat)) (\<lambda>tempInput.
     bindE (Predict (emit (EvSample i) s) network tempInput) (\<lambda>(out, s1).
     bindE (backward_loop s1 network batchTarget targetCols i (nat (NumberOfLayers network)) lastLayer)
       (\<lambda>(network2, lastLayer2, s2).
     bindE (update_loop s2 network2 learningRate tempInput 0) (\<lambda>(network3, s3).
     Inr (network3, lastLayer2, s3))))))"

function sample_loop ::
  "'a::{zero,plus,minus,times} state \<Rightarrow> 'a Network \<Rightarrow> 'a Dense \<Rightarrow> 'a Dense \<Rightarrow> 'a \<Rightarrow> nat \<Rightarrow> nat
     \<Rightarrow> nat \<Rightarrow> nat \<Rightarrow> 'a Layer \<Rightarrow> panic + ('a Network \<times> 'a Layer \<times> 'a state)" where
  "sample_loop s network batchInput batchTarget learningRate targetCols inputRows inputCols i lastLayer =
     (if i < inputRows then
        bindE (train_sample s network batchInput batchTarget learningRate targetCols inputCols i lastLayer)
          (\<lambda>(network1, lastLayer1, s1).
        sample_loop s1 network1 batchInput batchTarget learningRate targetCols inputRows inputCols
          (Suc i) lastLayer1)
      else Inr (network, lastLayer, s))"
  by pat_completeness auto
termination
  by (relation "measure (\<lambda>(s, network, batchInput, batchTarget, learningRate, targetCols,
        inputRows, inputCols, i, lastLayer). inputRows - i)") auto

function epoch_loop ::
  "'a::{zero,plus,minus,times} state \<Rightarrow> 'a Network \<Rightarrow> 'a Dense \<Rightarrow> 'a Dense \<Rightarrow> 'a \<Rightarrow> int
     \<Rightarrow> 'a Layer \<Rightarrow> panic + ('a Network \<times> 'a Layer \<times> 'a state)" where
  "epoch_loop s network batchInput batchTarget learningRate epochs lastLayer =
     (if epochs > 0 then
        let targetCols = cols batchTarget;
            inputRows = rows batchInput;
            inputCols = cols batchInput in
        bindE (sample_loop s network batchInput batchTarget learningRate targetCols inputRows
                 inputCols 0 lastLayer) (\<lambda>(network1, lastLayer1, s1).
        epoch_loop s1 network1 batchInput batchTarget learningRate (epochs - 1) lastLayer1)
      else Inr (network, lastLayer, s))"
  by pat_completeness auto
termination
  by (relation "measure (\<lambda>(s, network, batchInput, batchTarget, learningRate, epochs,
        lastLayer). nat epochs)") auto

definition Train ::
  "'a::{zero,plus,minus,times} state \<Rightarrow> 'a Network \<Rightarrow> 'a Dense \<Rightarrow> 'a Dense \<Rightarrow> 'a \<Rightarrow> int
     \<Rightarrow> panic + ('a Network \<times> 'a state)" where
  "Train s network batchInput batchTarget learningRate epochs =
     bindE (index (Layers network) (NumberOfLayers network - 1)) (\<lambda>lastLayer.
     bindE (epoch_loop s network batchInput batchTarget learningRate epochs lastLayer)
       (\<lambda>(network1, lastLayer1, s1). Inr (network1, s1)))"

subsection \<open>NewNetwork\<close>

type_synonym go_error = string

definition zeroLayer :: "'a Layer" where
  "zeroLayer = \<lparr>Bias = 0, Weights = 0, Delta = 0, Gradient = 0, Activations = 0,
     ActivationFunc = None, ActivationPrimeFunc = None, IsLastLayer = False\<rparr>"

text \<open>\<open>make([]Layer, n)\<close>: \<open>n\<close> zero-valued layers; panics on a negative length.\<close>

definition make_layers :: "int \<Rightarrow> panic + 'a Layer list" where
  "make_layers n = (if n < 0 then Inl NegativeLength else Inr (replicate (nat n) zeroLayer))"

definition KaimingInitialization ::
  "(nat \<Rightarrow> int \<Rightarrow> int \<Rightarrow> panic + 'a Dense) \<Rightarrow> 'a state \<Rightarrow> int \<Rightarrow> int \<Rightarrow> panic + (nat \<times> 'a state)" where
  \<comment> \<open>Modelled from the spec: the weight initializer \<open>KaimingInitialization\<close> is not among
      the sources. Given \<open>(fan_in, fan_out)\<close> it returns a matrix of randomly sampled
      weights. The parameter \<open>kaiming\<close> stands for the sampling: it gives the matrix (or
      the panic) of the call with a given number and given dimensions. The returned
      pointer is a new cell of the store.\<close>
  "KaimingInitialization kaiming s fanIn fanOut =
     bindE (kaiming (draws s) fanIn fanOut) (\<lambda>m.
     Inr (alloc (s\<lparr>draws := Suc (draws s)\<rparr>) m))"

text \<open>
  \<open>Sigmoid\<close> and \<open>SigmoidDerivative\<close> are not among the sources either; the
  constructors take them as parameters.
\<close>

definition layerConstructor ::
  "(nat \<Rightarrow> nat \<Rightarrow> 'a \<Rightarrow> 'a) \<Rightarrow> (nat \<Rightarrow> nat \<Rightarrow> 'a \<Rightarrow> 'a) \<Rightarrow> 'a::zero state \<Rightarrow> nat \<Rightarrow> bool
     \<Rightarrow> panic + ('a Layer \<times> 'a state)" where
  "layerConstructor Sigmoid SigmoidDerivative s weights isLastLayer =
     bindE (deref s weights) (\<lambda>w.
     bindE (NewDense 1 (cols w) None) (\<lambda>b. case alloc s b of (pb, s1) \<Rightarrow>
     bindE (NewDense 1 1 None) (\<lambda>d. case alloc s1 d of (pd, s2) \<Rightarrow>
     bindE (NewDense 1 1 None) (\<lambda>g. case alloc s2 g of (pg, s3) \<Rightarrow>
     bindE (NewDense 1 1 None) (\<lambda>a. case alloc s3 a of (pa, s4) \<Rightarrow>
     Inr (\<lparr>Bias = pb, Weights = weights, Delta = pd, Gradient = pg, Activations = pa,
            ActivationFunc = Some Sigmoid, ActivationPrimeFunc = Some SigmoidDerivative,
            IsLastLayer = isLastLayer\<rparr>, s4))))))"

function hidden_loop ::
  "(nat \<Rightarrow> int \<Rightarrow> int \<Rightarrow> panic + 'a Dense) \<Rightarrow> (nat \<Rightarrow> nat \<Rightarrow> 'a \<Rightarrow> 'a) \<Rightarrow> (nat \<Rightarrow> nat \<Rightarrow> 'a \<Rightarrow> 'a)
     \<Rightarrow> 'a::zero state \<Rightarrow> 'a Layer list \<Rightarrow> int \<Rightarrow> int \<Rightarrow> int \<Rightarrow> panic + ('a Layer list \<times> 'a state)" where
  "hidden_loop kaiming Sigmoid SigmoidDerivative s layers neuronsPerLayer i bound =
     (if i < bound then
        bindE (KaimingInitialization kaiming s neuronsPerLayer neuronsPerLayer) (\<lambda>(weights, s1).
        bindE (layerConstructor Sigmoid SigmoidDerivative s1 weights False) (\<lambda>(temp, s2).
        bindE (set_index layers i temp) (\<lambda>layers1.
        hidden_loop kaiming Sigmoid SigmoidDerivative s2 layers1 neuronsPerLayer (i + 1) bound)))
      else Inr (layers, s))"
  by pat_completeness auto
termination
  by (relation "measure (\<lambda>(kaiming, Sigmoid, SigmoidDerivative, s, layers, neuronsPerLayer, i,
        bound). nat (bound - i))") auto

definition NewNetwork ::
  "(nat \<Rightarrow> int \<Rightarrow> int \<Rightarrow> panic + 'a Dense) \<Rightarrow> (nat \<Rightarrow> nat \<Rightarrow> 'a \<Rightarrow> 'a) \<Rightarrow> (nat \<Rightarrow> nat \<Rightarrow> 'a \<Rightarrow> 'a)
     \<Rightarrow> 'a::zero state \<Rightarrow> int \<Rightarrow> int \<Rightarrow> int
     \<Rightarrow> panic + (('a Network \<times> go_error option) \<times> 'a state)" where
  "NewNetwork kaiming Sigmoid SigmoidDerivative s neuronsPerLayer numberOfHiddenLayers numberOfInputs =
     bindE (make_layers (wrap64 (numberOfHiddenLayers + 2))) (\<lambda>layers0.
     bindE (KaimingInitialization kaiming s numberOfInputs neuronsPerLayer) (\<lambda>(inputWeights, s1).
     bindE (layerConstructor Sigmoid SigmoidDerivative s1 inputWeights False) (\<lambda>(inputLayer, s2).
     bindE (set_index layers0 0 inputLayer) (\<lambda>layers1.
     bindE (hidden_loop kaiming Sigmoid SigmoidDerivative s2 layers1 neuronsPerLayer 1
              (wrap64 (numberOfHiddenLayers + 1))) (\<lambda>(layers2, s3).
     bindE (KaimingInitialization kaiming s3 neuronsPerLayer 1) (\<lambda>(weights, s4).
     bindE (layerConstructor Sigmoid SigmoidDerivative s4 weights True) (\<lambda>(temp, s5).
     bindE (set_index layers2 (wrap64 (numberOfHiddenLayers + 1)) temp) (\<lambda>layers3.
     Inr ((\<lparr>Layers = layers3, NeuronsPerLayer = neuronsPerLayer,
             NumberOfLayers = wrap64 (numberOfHiddenLayers + 2)\<rparr>, None), s5)))))))))"

text \<open>
  The loops are unfolded by hand in the proofs, one iteration at a time.
\<close>

declare update_loop.simps [simp del]
declare sample_loop.simps [simp del]
declare epoch_loop.simps [simp del]
declare hidden_loop.simps [simp del]

section \<open>Vocabulary of the statements\<close>

subsection \<open>What the constructor builds\<close>

text \<open>
  \<open>zeros r c\<close> is what \<open>mat.NewDense(r, c, nil)\<close> allocates. A layer built when the store
  has \<open>base\<close> cells takes the next five addresses: weights, bias, delta, gradient,
  activations, in the order of allocation; \<open>constructed\<close> describes those five cells.
  \<open>good_init\<close> is the contract of the weight initializer for positive dimensions (the
  requested shape), \<open>returns_init\<close> the weaker one that every call returns a matrix with at
  least one column.
\<close>

definition zeros :: "nat \<Rightarrow> nat \<Rightarrow> 'a::zero Dense" where
  "zeros r c = \<lparr>rows = r, cols = c, data = replicate (r * c) 0\<rparr>"

definition layer_at ::
  "(nat \<Rightarrow> nat \<Rightarrow> 'a \<Rightarrow> 'a) \<Rightarrow> (nat \<Rightarrow> nat \<Rightarrow> 'a \<Rightarrow> 'a) \<Rightarrow> nat \<Rightarrow> bool \<Rightarrow> 'a Layer" where
  "layer_at Sigmoid SigmoidDerivative base isLast =
     \<lparr>Bias = base + 2, Weights = base + 1, Delta = base + 3, Gradient = base + 4,
      Activations = base + 5, ActivationFunc = Some Sigmoid,
      ActivationPrimeFunc = Some SigmoidDerivative, IsLastLayer = isLast\<rparr>"

definition constructed :: "'a::zero state \<Rightarrow> nat \<Rightarrow> nat \<Rightarrow> nat \<Rightarrow> bool" where
  "constructed s base r c \<longleftrightarrow>
     base + 5 \<le> length (cells s) \<and>
     rows (cells s ! base) = r \<and> cols (cells s ! base) = c \<and>
     cells s ! (base + 1) = zeros 1 c \<and>
     cells s ! (base + 2) = zeros 1 1 \<and>
     cells s ! (base + 3) = zeros 1 1 \<and>
     cells s ! (base + 4) = zeros 1 1"

definition good_init :: "(nat \<Rightarrow> int \<Rightarrow> int \<Rightarrow> panic + 'a Dense) \<Rightarrow> bool" where
  "good_init kaiming \<longleftrightarrow>
     (\<forall>k r c. 0 < r \<and> 0 < c \<longrightarrow>
        (\<exists>m. kaiming k r c = Inr m \<and> int (rows m) = r \<and> int (cols m) = c))"

definition returns_init :: "(nat \<Rightarrow> int \<Rightarrow> int \<Rightarrow> panic + 'a Dense) \<Rightarrow> bool" where
  "returns_init kaiming \<longleftrightarrow> (\<forall>k r c. \<exists>m. kaiming k r c = Inr m \<and> 0 < cols m)"

text \<open>Reading the result of \<open>NewNetwork\<close>, and whether a call returned at all.\<close>

definition built_network :: "panic + (('a Network \<times> go_error option) \<times> 'a state) \<Rightarrow> 'a Network" where
  "built_network r =
     (case r of Inr ((net, e), s) \<Rightarrow> net
      | Inl p \<Rightarrow> \<lparr>Layers = [], NeuronsPerLayer = 0, NumberOfLayers = 0\<rparr>)"

definition built_state :: "panic + (('a Network \<times> go_error option) \<times> 'a state) \<Rightarrow> 'a state" where
  "built_state r =
     (case r of Inr ((net, e), s) \<Rightarrow> s | Inl p \<Rightarrow> \<lparr>cells = [], draws = 0, trace = []\<rparr>)"

definition built_error :: "panic + (('a Network \<times> go_error option) \<times> 'a state) \<Rightarrow> go_error option" where
  "built_error r = (case r of Inr ((net, e), s) \<Rightarrow> e | Inl p \<Rightarrow> Some ''panic'')"

definition weight_shape :: "'a state \<Rightarrow> 'a Layer \<Rightarrow> panic + nat \<times> nat" where
  "weight_shape s layer = bindE (deref s (Weights layer)) (\<lambda>w. Inr (rows w, cols w))"

definition succeeded :: "panic + 'x \<Rightarrow> bool" where
  "succeeded r = (case r of Inr v \<Rightarrow> True | Inl e \<Rightarrow> False)"

subsection \<open>Well-formed networks\<close>

text \<open>
  The cache pointers and the parameter pointers of a list of layers; \<open>wired\<close> says that
  the weights chain from the input width on, every bias is a row as wide as its weights
  and the activation functions are set; \<open>out_cols\<close> is the width that comes out of such a
  chain; \<open>owned\<close> says that the caches are allocated matrices of their own.
  \<open>Predict_times\<close> calls \<open>Predict\<close> \<open>n\<close> times in a row and collects the outputs.
\<close>

definition caches :: "'a Layer list \<Rightarrow> nat list" where
  "caches ls = concat (map (\<lambda>l. [Activations l, Gradient l]) ls)"

definition params :: "'a Layer list \<Rightarrow> nat list" where
  "params ls = concat (map (\<lambda>l. [Weights l, Bias l, Delta l]) ls)"

fun wired :: "'a state \<Rightarrow> 'a Layer list \<Rightarrow> nat \<Rightarrow> bool" where
  "wired s [] inW = True"
| "wired s (l # ls) inW =
     (case deref s (Weights l) of
        Inl e \<Rightarrow> False
      | Inr w \<Rightarrow>
          (case deref s (Bias l) of
             Inl e \<Rightarrow> False
           | Inr b \<Rightarrow> rows w = inW \<and> rows b = 1 \<and> cols b = cols w \<and>
                      ActivationFunc l \<noteq> None \<and> ActivationPrimeFunc l \<noteq> None \<and>
                      wired s ls (cols w)))"

definition owned :: "'a state \<Rightarrow> 'a Layer list \<Rightarrow> bool" where
  "owned s ls \<longleftrightarrow>
     distinct (caches ls) \<and> set (caches ls) \<inter> set (params ls) = {} \<and>
     (\<forall>p \<in> set (caches ls) \<union> set (params ls). valid s p)"

fun out_cols :: "'a state \<Rightarrow> 'a Layer list \<Rightarrow> nat \<Rightarrow> nat" where
  "out_cols s [] c = c"
| "out_cols s (l # ls) c =
     out_cols s ls (case deref s (Weights l) of Inr w \<Rightarrow> cols w | Inl e \<Rightarrow> 0)"

fun Predict_times ::
  "nat \<Rightarrow> 'a::{zero,plus,times} state \<Rightarrow> 'a Network \<Rightarrow> 'a Dense \<Rightarrow> panic + ('a Dense list \<times> 'a state)" where
  "Predict_times 0 s network input = Inr ([], s)"
| "Predict_times (Suc n) s network input =
     bindE (Predict s network input) (\<lambda>(out, s1).
     bindE (Predict_times n s1 network input) (\<lambda>(outs, s2).
     Inr (out # outs, s2)))"

subsection \<open>Column counts\<close>

text \<open>
  \<open>col_at\<close> reads the column count of the matrix behind a pointer, \<open>same_cols\<close> says that
  the pointers of a list all lead to matrices of one column count, \<open>layer_cols\<close> lists the
  column counts of bias, weights, activations, gradient and delta.
\<close>

definition col_at :: "'a state \<Rightarrow> nat \<Rightarrow> nat option" where
  "col_at s p = (case deref s p of Inr m \<Rightarrow> Some (cols m) | Inl e \<Rightarrow> None)"

definition same_cols :: "'a state \<Rightarrow> nat list \<Rightarrow> bool" where
  "same_cols s ps \<longleftrightarrow>
     (case ps of [] \<Rightarrow> True
      | p # qs \<Rightarrow> col_at s p \<noteq> None \<and> (\<forall>q \<in> set qs. col_at s q = col_at s p))"

definition layer_cols :: "'a state \<Rightarrow> 'a Layer \<Rightarrow> nat option list" where
  "layer_cols s l = map (col_at s) [Bias l, Weights l, Activations l, Gradient l, Delta l]"

subsection \<open>The order of the passes\<close>

text \<open>
  The events of one sample and of a whole \<open>Train\<close> call, for a network of \<open>n\<close> layers with
  recorded layer count \<open>k\<close> and a batch of \<open>r\<close> rows.
\<close>

definition sample_events :: "nat \<Rightarrow> nat \<Rightarrow> nat \<Rightarrow> event list" where
  "sample_events n k i =
     EvSample i # map EvForward [0..<n] @ map EvBackward (rev [0..<k]) @ map EvUpdate [0..<n]"

definition schedule :: "nat \<Rightarrow> nat \<Rightarrow> nat \<Rightarrow> int \<Rightarrow> event list" where
  "schedule n k r epochs =
     concat (replicate (nat epochs) (concat (map (sample_events n k) [0..<r])))"

section \<open>Concrete inputs\<close>

text \<open>
  Small inputs over \<open>int\<close> on which the theorems below are instantiated: two initializers
  (\<open>ramp_init\<close> panics on a dimension that is not positive, as \<open>mat.NewDense\<close> does;
  \<open>clamp_init\<close> always returns), an activation function with its derivative, a store
  holding a two-layer network after a forward and a backward pass, and batches.
\<close>

definition ramp_init :: "nat \<Rightarrow> int \<Rightarrow> int \<Rightarrow> panic + int Dense" where
  "ramp_init k r c =
     (if r \<le> 0 \<or> c \<le> 0 then Inl ZeroLength
      else Inr (tabulate (nat r) (nat c) (\<lambda>i j. int (k + i + 2 * j) - 1)))"

definition clamp_init :: "nat \<Rightarrow> int \<Rightarrow> int \<Rightarrow> panic + int Dense" where
  "clamp_init k r c = Inr (tabulate (nat (max 1 r)) (nat (max 1 c)) (\<lambda>i j. int (k + i + j)))"

definition lin :: "nat \<Rightarrow> nat \<Rightarrow> int \<Rightarrow> int" where
  "lin i j v = v"

definition one :: "nat \<Rightarrow> nat \<Rightarrow> int \<Rightarrow> int" where
  "one i j v = 1"

definition empty_state :: "int state" where
  "empty_state = \<lparr>cells = [], draws = 0, trace = []\<rparr>"

definition fx_state :: "int state" where
  "fx_state = \<lparr>cells = [\<lparr>rows = 2, cols = 2, data = [1, 2, 3, 4]\<rparr>,
                         \<lparr>rows = 1, cols = 2, data = [10, 20]\<rparr>,
                         \<lparr>rows = 1, cols = 2, data = [1, - 1]\<rparr>,
                         \<lparr>rows = 1, cols = 2, data = [2, 3]\<rparr>,
                         \<lparr>rows = 1, cols = 2, data = [14, 26]\<rparr>,
                         \<lparr>rows = 2, cols = 1, data = [5, 6]\<rparr>,
                         \<lparr>rows = 1, cols = 1, data = [7]\<rparr>,
                         \<lparr>rows = 1, cols = 1, data = [2]\<rparr>,
                         \<lparr>rows = 1, cols = 1, data = [1]\<rparr>,
                         \<lparr>rows = 1, cols = 1, data = [9]\<rparr>],
               draws = 2, trace = []\<rparr>"

definition fx_layer :: "int Layer" where
  "fx_layer = \<lparr>Bias = 2, Weights = 1, Delta = 3, Gradient = 4, Activations = 5,
     ActivationFunc = Some lin, ActivationPrimeFunc = Some one, IsLastLayer = False\<rparr>"

definition fx_out_layer :: "int Layer" where
  "fx_out_layer = \<lparr>Bias = 7, Weights = 6, Delta = 8, Gradient = 9, Activations = 10,
     ActivationFunc = Some lin, ActivationPrimeFunc = Some one, IsLastLayer = True\<rparr>"

definition fx_network :: "int Network" where
  "fx_network = \<lparr>Layers = [fx_layer, fx_out_layer], NeuronsPerLayer = 2, NumberOfLayers = 2\<rparr>"

definition fx_input :: "int Dense" where
  "fx_input = \<lparr>rows = 1, cols = 2, data = [1, 1]\<rparr>"

definition fx_target :: "int Dense" where
  "fx_target = \<lparr>rows = 1, cols = 1, data = [1]\<rparr>"

definition fx_no_rows :: "int Dense" where
  "fx_no_rows = \<lparr>rows = 0, cols = 0, data = []\<rparr>"

definition fx_batch :: "int Dense" where
  "fx_batch = \<lparr>rows = 2, cols = 2, data = [1, 1, 0, 1]\<rparr>"

definition fx_targets :: "int Dense" where
  "fx_targets = \<lparr>rows = 2, cols = 1, data = [1, 0]\<rparr>"

section \<open>Basic facts\<close>

lemma bindE_Inr [simp]: "bindE (Inr v) k = k v"
  by (simp add: bindE_def)

lemma bindE_Inl [simp]: "bindE (Inl e) k = Inl e"
  by (simp add: bindE_def)

lemma bindE_eq_Inr: "bindE r k = Inr y \<longleftrightarrow> (\<exists>v. r = Inr v \<and> k v = Inr y)"
  by (cases r) simp_all

lemma length_rows_concat: "length (concat (map (\<lambda>i. map (f i) [0..<c]) [0..<r])) = r * c"
  by (induction r) simp_all

lemma nth_rows_concat:
  "i < r \<Longrightarrow> j < c \<Longrightarrow> concat (map (\<lambda>i. map (f i) [0..<c]) [0..<r]) ! (i * c + j) = f i j"
proof (induction r)
  case 0
  then show ?case by simp
next
  case (Suc r)
  show ?case
  proof (cases "i < r")
    case True
    have "i * c + j < Suc i * c" using Suc.prems(2) by simp
    also have "\<dots> \<le> r * c" using True by (simp only: mult_le_mono1 Suc_leI)
    finally have "i * c + j < r * c" .
    with True Suc show ?thesis by (simp add: nth_append length_rows_concat)
  next
    case False
    with Suc.prems have "i = r" by simp
    with Suc.prems show ?thesis by (simp add: nth_append length_rows_concat)
  qed
qed

lemma rows_tabulate [simp]: "rows (tabulate r c f) = r"
  and cols_tabulate [simp]: "cols (tabulate r c f) = c"
  and length_data_tabulate [simp]: "length (data (tabulate r c f)) = r * c"
  by (simp_all add: tabulate_def length_rows_concat)

lemma elem_tabulate [simp]: "i < r \<Longrightarrow> j < c \<Longrightarrow> elem (tabulate r c f) i j = f i j"
  by (simp add: elem_def tabulate_def nth_rows_concat)

lemma zip_elems_Inr:
  "rows a = rows b \<Longrightarrow> cols a = cols b \<Longrightarrow>
   zip_elems f a b = Inr (tabulate (rows a) (cols a) (\<lambda>i j. f (elem a i j) (elem b i j)))"
  by (simp add: zip_elems_def)

lemma zip_elems_shape:
  "zip_elems f a b = Inr m \<Longrightarrow> rows m = rows a \<and> cols m = cols a \<and> rows b = rows a \<and> cols b = cols a"
  by (auto simp: zip_elems_def split: if_splits)

lemma Multiply_shape:
  "Multiply a b = Inr m \<Longrightarrow> rows m = rows a \<and> cols m = cols b \<and> rows b = cols a"
  by (auto simp: Multiply_def split: if_splits)

lemma Map_shape: "Map fn a = Inr m \<Longrightarrow> rows m = rows a \<and> cols m = cols a"
  by (auto simp: Map_def split: option.splits)

lemma rows_T [simp]: "rows (T m) = cols m" and cols_T [simp]: "cols (T m) = rows m"
  by (simp_all add: T_def)

lemma rows_Scale [simp]: "rows (Scale c m) = rows m" and cols_Scale [simp]: "cols (Scale c m) = cols m"
  by (simp_all add: Scale_def)

subsection \<open>The store\<close>

lemma valid_emit [simp]: "valid (emit e s) p = valid s p"
  by (simp add: valid_def emit_def)

lemma deref_emit [simp]: "deref (emit e s) p = deref s p"
  by (simp add: deref_def emit_def valid_def)

lemma cells_emit [simp]: "cells (emit e s) = cells s"
  by (simp add: emit_def)

lemma trace_emit [simp]: "trace (emit e s) = trace s @ [e]"
  by (simp add: emit_def)

lemma draws_emit [simp]: "draws (emit e s) = draws s"
  by (simp add: emit_def)

lemma deref_Inr_valid: "deref s p = Inr m \<Longrightarrow> valid s p"
  by (simp add: deref_def split: if_splits)

lemma valid_deref: "valid s p \<Longrightarrow> \<exists>m. deref s p = Inr m"
  by (simp add: deref_def)

lemma alloc_fresh: "alloc s m = (p, s') \<Longrightarrow> \<not> valid s p"
  by (auto simp: alloc_def valid_def)

lemma alloc_cells: "alloc s m = (p, s') \<Longrightarrow> cells s' = cells s @ [m] \<and> p = Suc (length (cells s)) \<and> trace s' = trace s \<and> draws s' = draws s"
  by (auto simp: alloc_def)

lemma alloc_valid: "alloc s m = (p, s') \<Longrightarrow> valid s' q \<longleftrightarrow> valid s q \<or> q = p"
  by (auto simp: alloc_def valid_def)

lemma alloc_deref:
  "alloc s m = (p, s') \<Longrightarrow> deref s' q = (if q = p then Inr m else deref s q)"
  by (auto simp: alloc_def deref_def valid_def nth_append)

lemma assign_valid: "assign s p m = Inr s' \<Longrightarrow> valid s' q = valid s q"
  by (auto simp: assign_def valid_def split: if_splits)

lemma assign_deref:
  "assign s p m = Inr s' \<Longrightarrow> deref s' q = (if q = p then Inr m else deref s q)"
  by (auto simp: assign_def deref_def valid_def nth_list_update split: if_splits)

lemma assign_Inr: "valid s p \<Longrightarrow> \<exists>s'. assign s p m = Inr s'"
  by (simp add: assign_def)

lemma assign_other: "assign s p m = Inr s' \<Longrightarrow> trace s' = trace s \<and> draws s' = draws s \<and> length (cells s') = length (cells s)"
  by (auto simp: assign_def split: if_splits)


lemma ForwardPass_Inr:
  assumes "ForwardPass s layer input = Inr s'"
  shows "\<exists>w z b zB a g.
           deref s (Weights layer) = Inr w \<and> Multiply input w = Inr z \<and>
           deref s (Bias layer) = Inr b \<and> Add z b = Inr zB \<and>
           Map (ActivationFunc layer) zB = Inr a \<and> Map (ActivationPrimeFunc layer) zB = Inr g \<and>
           0 < Activations layer \<and> Activations layer \<le> Suc (length (cells s)) \<and>
           0 < Gradient layer \<and> Gradient layer \<le> Suc (Suc (length (cells s))) \<and>
           s' = s\<lparr>cells := ((cells s @ [a])[Activations layer - 1 := a] @ [g])[Gradient layer - 1 := g]\<rparr>"
  using assms
  by (auto simp: ForwardPass_def bindE_eq_Inr Update_def alloc_def deref_def assign_def valid_def
           split: if_splits)

lemma ForwardPass_succeeds:
  assumes "deref s (Weights layer) = Inr w" "Multiply input w = Inr z"
    "deref s (Bias layer) = Inr b" "Add z b = Inr zB"
    "Map (ActivationFunc layer) zB = Inr a" "Map (ActivationPrimeFunc layer) zB = Inr g"
    "valid s (Activations layer)" "valid s (Gradient layer)"
  shows "ForwardPass s layer input =
           Inr (s\<lparr>cells := ((cells s @ [a])[Activations layer - 1 := a] @ [g])[Gradient layer - 1 := g]\<rparr>)"
  using assms
  by (auto simp: ForwardPass_def Update_def alloc_def deref_def assign_def valid_def)


lemma deref_forward_cells:
  assumes "valid s pa" "valid s pg" "valid s p"
  shows "deref (s\<lparr>cells := ((cells s @ [a])[pa - Suc 0 := a] @ [g])[pg - Suc 0 := g]\<rparr>) p =
           (if p = pg then Inr g else if p = pa then Inr a else deref s p)"
  using assms by (auto simp: deref_def valid_def nth_list_update nth_append)

lemma valid_forward_cells:
  assumes "valid s p"
  shows "valid (s\<lparr>cells := ((cells s @ [a])[pa - Suc 0 := a] @ [g])[pg - Suc 0 := g]\<rparr>) p"
  using assms by (auto simp: valid_def)

lemma alloc_eq: "alloc s m = (Suc (length (cells s)), s\<lparr>cells := cells s @ [m]\<rparr>)"
  by (simp add: alloc_def)

lemma deref_append_old:
  "valid s p \<Longrightarrow> deref (s\<lparr>cells := cells s @ ms\<rparr>) p = deref s p"
  by (auto simp: deref_def valid_def nth_append)

lemma deref_append_new:
  "deref (s\<lparr>cells := cells s @ [m]\<rparr>) (Suc (length (cells s))) = Inr m"
  by (simp add: deref_def valid_def)

lemma valid_append:
  "valid s p \<Longrightarrow> valid (s\<lparr>cells := cells s @ ms\<rparr>) p"
  by (simp add: valid_def)

lemma BackwardPass_last:
  assumes "IsLastLayer layer"
    "deref s (Activations layer) = Inr a" "Subtract a target = Inr err"
    "deref s (Gradient layer) = Inr g" "MultiplyElems err g = Inr d"
  shows "BackwardPass s layer target rightLayer =
           Inr (layer\<lparr>Delta := Suc (length (cells s))\<rparr>, s\<lparr>cells := cells s @ [d]\<rparr>)"
  using assms by (simp add: BackwardPass_def Update_def alloc_def)

lemma BackwardPass_inner:
  assumes "\<not> IsLastLayer layer"
    "deref s (Delta rightLayer) = Inr dR" "deref s (Weights rightLayer) = Inr wR"
    "Multiply dR (T wR) = Inr m"
    "deref s (Gradient layer) = Inr g" "MultiplyElems m g = Inr d"
  shows "BackwardPass s layer target rightLayer =
           Inr (layer\<lparr>Delta := Suc (length (cells s))\<rparr>, s\<lparr>cells := cells s @ [d]\<rparr>)"
  using assms by (simp add: BackwardPass_def Update_def alloc_def)

lemma BackwardPass_Inr:
  assumes "BackwardPass s layer target rightLayer = Inr (layer', s')"
  shows "\<exists>d. layer' = layer\<lparr>Delta := Suc (length (cells s))\<rparr> \<and> s' = s\<lparr>cells := cells s @ [d]\<rparr> \<and>
          (if IsLastLayer layer
           then \<exists>a err g. deref s (Activations layer) = Inr a \<and> Subtract a target = Inr err \<and>
                  deref s (Gradient layer) = Inr g \<and> MultiplyElems err g = Inr d
           else \<exists>dR wR m g. deref s (Delta rightLayer) = Inr dR \<and>
                  deref s (Weights rightLayer) = Inr wR \<and> Multiply dR (T wR) = Inr m \<and>
                  deref s (Gradient layer) = Inr g \<and> MultiplyElems m g = Inr d)"
  using assms
  by (auto simp: BackwardPass_def bindE_eq_Inr Update_def alloc_def split: if_splits)

lemma dot_T_right:
  assumes "j < rows w" "cols d = cols w"
  shows "dot d (T w) i j = foldl (+) 0 (map (\<lambda>k. elem d i k * elem w j k) [0..<cols w])"
proof -
  have eq: "map (\<lambda>k. elem d i k * elem (T w) k j) [0..<cols w]
          = map (\<lambda>k. elem d i k * elem w j k) [0..<cols w]"
    using assms by (intro map_cong [OF refl]) (simp add: T_def)
  show ?thesis by (simp only: dot_def assms(2) eq)
qed

lemma UpdateWeights_Inr:
  assumes "UpdateWeights s layer learningRate leftA = Inr (layer', s')"
  shows "\<exists>d ad w w' b b'.
           deref s (Delta layer) = Inr d \<and> Multiply (T leftA) d = Inr ad \<and>
           deref s (Weights layer) = Inr w \<and> Subtract w (Scale learningRate ad) = Inr w' \<and>
           deref (s\<lparr>cells := cells s @ [w']\<rparr>) (Bias layer) = Inr b \<and>
           Subtract b (Scale learningRate d) = Inr b' \<and>
           layer' = layer\<lparr>Weights := Suc (length (cells s)), Bias := Suc (Suc (length (cells s)))\<rparr> \<and>
           s' = s\<lparr>cells := cells s @ [w', b']\<rparr>"
proof -
  from assms obtain d ad w w' d1 b b' where
    f: "deref s (Delta layer) = Inr d" "Multiply (T leftA) d = Inr ad"
       "deref s (Weights layer) = Inr w" "Subtract w (Scale learningRate ad) = Inr w'"
       "deref (s\<lparr>cells := cells s @ [w']\<rparr>) (Delta layer) = Inr d1"
       "deref (s\<lparr>cells := cells s @ [w']\<rparr>) (Bias layer) = Inr b"
       "Subtract b (Scale learningRate d1) = Inr b'"
       "layer' = layer\<lparr>Weights := Suc (length (cells s)), Bias := Suc (Suc (length (cells s)))\<rparr>"
       "s' = s\<lparr>cells := cells s @ [w', b']\<rparr>"
    by (auto simp: UpdateWeights_def bindE_eq_Inr Update_def alloc_def Let_def)
  from f(1) have "valid s (Delta layer)" by (rule deref_Inr_valid)
  with f(1,5) have "d1 = d" by (simp add: deref_append_old)
  with f show ?thesis by blast
qed

lemma UpdateWeights_succeeds:
  assumes "deref s (Delta layer) = Inr d" "Multiply (T leftA) d = Inr ad"
    "deref s (Weights layer) = Inr w" "Subtract w (Scale learningRate ad) = Inr w'"
    "deref s (Bias layer) = Inr b" "Subtract b (Scale learningRate d) = Inr b'"
  shows "UpdateWeights s layer learningRate leftA =
           Inr (layer\<lparr>Weights := Suc (length (cells s)), Bias := Suc (Suc (length (cells s)))\<rparr>,
                s\<lparr>cells := cells s @ [w', b']\<rparr>)"
  using assms
  by (simp add: UpdateWeights_def Update_def alloc_def Let_def deref_append_old deref_Inr_valid)

subsection \<open>Train without work\<close>

lemma sample_loop_done:
  "\<not> i < inputRows \<Longrightarrow>
   sample_loop s network batchInput batchTarget learningRate targetCols inputRows inputCols i lastLayer
     = Inr (network, lastLayer, s)"
  by (subst sample_loop.simps) simp

lemma epoch_loop_done:
  "epochs \<le> 0 \<Longrightarrow>
   epoch_loop s network batchInput batchTarget learningRate epochs lastLayer
     = Inr (network, lastLayer, s)"
  by (subst epoch_loop.simps) simp

lemma epoch_loop_no_rows:
  "rows batchInput = 0 \<Longrightarrow>
   epoch_loop s network batchInput batchTarget learningRate epochs lastLayer
     = Inr (network, lastLayer, s)"
proof (induction s network batchInput batchTarget learningRate epochs lastLayer
       rule: epoch_loop.induct)
  case (1 s network batchInput batchTarget learningRate epochs lastLayer)
  show ?case
  proof (cases "epochs > 0")
    case True
    have sl: "sample_loop s network batchInput batchTarget learningRate (cols batchTarget)
                (rows batchInput) (cols batchInput) 0 lastLayer = Inr (network, lastLayer, s)"
      using "1.prems" by (simp add: sample_loop_done)
    have "epoch_loop s network batchInput batchTarget learningRate (epochs - 1) lastLayer
            = Inr (network, lastLayer, s)"
      using True "1.prems" sl by (intro "1.IH") simp_all
    then show ?thesis
      using True sl by (subst epoch_loop.simps) simp
  next
    case False
    then show ?thesis by (simp add: epoch_loop_done)
  qed
qed

subsection \<open>Construction\<close>

lemma NewDense_zeros: "0 < r \<Longrightarrow> 0 < c \<Longrightarrow> NewDense r c None = Inr (zeros r c)"
  by (simp add: NewDense_def zeros_def)

lemma Kaiming_Inr:
  assumes "kaiming (draws s) r c = Inr w"
  shows "KaimingInitialization kaiming s r c
           = Inr (Suc (length (cells s)), s\<lparr>cells := cells s @ [w], draws := Suc (draws s)\<rparr>)"
  using assms by (simp add: KaimingInitialization_def alloc_def)

lemma layerConstructor_Inr:
  assumes "deref s p = Inr w" "0 < cols w" "p = length (cells s)"
  shows "layerConstructor Sig SigD s p isLast
           = Inr (layer_at Sig SigD (length (cells s) - 1) isLast,
                  s\<lparr>cells := cells s @ [zeros 1 (cols w), zeros 1 1, zeros 1 1, zeros 1 1]\<rparr>)"
  using assms deref_Inr_valid [OF assms(1)]
  by (simp add: layerConstructor_def alloc_def NewDense_zeros layer_at_def valid_def)

lemma construct_layer:
  assumes "kaiming (draws s) r c = Inr w" "0 < cols w"
  shows "bindE (KaimingInitialization kaiming s r c)
           (\<lambda>(p, s1). bindE (layerConstructor Sig SigD s1 p isLast) k)
         = k (layer_at Sig SigD (length (cells s)) isLast,
              s\<lparr>cells := cells s @ [w, zeros 1 (cols w), zeros 1 1, zeros 1 1, zeros 1 1],
                draws := Suc (draws s)\<rparr>)"
proof -
  let ?s1 = "s\<lparr>cells := cells s @ [w], draws := Suc (draws s)\<rparr>"
  have d: "deref ?s1 (Suc (length (cells s))) = Inr w"
    by (simp add: deref_def valid_def)
  have "layerConstructor Sig SigD ?s1 (Suc (length (cells s))) isLast
          = Inr (layer_at Sig SigD (length (cells ?s1) - 1) isLast,
                 ?s1\<lparr>cells := cells ?s1 @ [zeros 1 (cols w), zeros 1 1, zeros 1 1, zeros 1 1]\<rparr>)"
    by (rule layerConstructor_Inr [OF d assms(2)]) simp
  moreover have "KaimingInitialization kaiming s r c = Inr (Suc (length (cells s)), ?s1)"
    using assms(1) by (rule Kaiming_Inr [where kaiming = kaiming])
  ultimately show ?thesis
    by (cases s) simp
qed

lemma constructed_new:
  assumes "cs = cells s @ [w, zeros 1 (cols w), zeros 1 1, zeros 1 1, zeros 1 1]"
  shows "constructed (s\<lparr>cells := cs, draws := d\<rparr>) (length (cells s)) (rows w) (cols w)"
  using assms by (simp add: constructed_def nth_append)

lemma constructed_extend:
  assumes "constructed s base r c" "cells s' = cells s @ extra"
  shows "constructed s' base r c"
  using assms by (simp add: constructed_def nth_append)

lemma set_index_Inr: "j < length xs \<Longrightarrow> set_index xs (int j) v = Inr (xs[j := v])"
  by (simp add: set_index_def)

lemma hidden_loop_built:
  assumes init: "good_init kaiming" and n: "0 < n"
  shows "a \<le> b \<Longrightarrow> b \<le> length layers \<Longrightarrow>
    \<exists>layers' s'. hidden_loop kaiming Sig SigD s layers n (int a) (int b) = Inr (layers', s') \<and>
       length layers' = length layers \<and>
       (\<forall>k. k < a \<or> b \<le> k \<longrightarrow> layers' ! k = layers ! k) \<and>
       (\<forall>k. a \<le> k \<and> k < b \<longrightarrow>
          layers' ! k = layer_at Sig SigD (length (cells s) + 5 * (k - a)) False \<and>
          constructed s' (length (cells s) + 5 * (k - a)) (nat n) (nat n)) \<and>
       (\<exists>extra. cells s' = cells s @ extra \<and> length extra = 5 * (b - a)) \<and>
       draws s' = draws s + (b - a) \<and> trace s' = trace s"
proof (induction "b - a" arbitrary: a s layers)
  case 0
  then have "a = b" by simp
  then show ?case
    by (subst hidden_loop.simps) auto
next
  case (Suc m)
  then have ab: "a < b" and m: "m = b - Suc a" by simp_all
  from init n obtain w where w: "kaiming (draws s) n n = Inr w"
    and rw: "rows w = nat n" and cw: "cols w = nat n"
    unfolding good_init_def by (metis nat_int)
  from cw n have cpos: "0 < cols w" by simp
  define s2 where
    "s2 = s\<lparr>cells := cells s @ [w, zeros 1 (cols w), zeros 1 1, zeros 1 1, zeros 1 1],
            draws := Suc (draws s)\<rparr>"
  define layers1 where "layers1 = layers[a := layer_at Sig SigD (length (cells s)) False]"
  have alen: "a < length layers" using ab Suc.prems by simp
  have step: "hidden_loop kaiming Sig SigD s layers n (int a) (int b)
                = hidden_loop kaiming Sig SigD s2 layers1 n (int (Suc a)) (int b)"
    using ab alen
    by (subst hidden_loop.simps)
       (simp add: construct_layer [where kaiming = kaiming, OF w cpos] set_index_Inr
          s2_def layers1_def add.commute)
  have c0: "constructed s2 (length (cells s)) (nat n) (nat n)"
    unfolding s2_def using constructed_new [where s = s and w = w, OF refl] by (simp add: rw cw)
  have len2: "length (cells s2) = length (cells s) + 5"
    and dr2: "draws s2 = Suc (draws s)" and tr2: "trace s2 = trace s"
    by (simp_all add: s2_def)
  from Suc.hyps(1) [OF m, of layers1 s2] ab Suc.prems
  obtain layers' s' extra where r:
    "hidden_loop kaiming Sig SigD s2 layers1 n (int (Suc a)) (int b) = Inr (layers', s')"
    "length layers' = length layers1"
    "\<forall>k. k < Suc a \<or> b \<le> k \<longrightarrow> layers' ! k = layers1 ! k"
    "\<forall>k. Suc a \<le> k \<and> k < b \<longrightarrow>
          layers' ! k = layer_at Sig SigD (length (cells s2) + 5 * (k - Suc a)) False \<and>
          constructed s' (length (cells s2) + 5 * (k - Suc a)) (nat n) (nat n)"
    "cells s' = cells s2 @ extra" "length extra = 5 * (b - Suc a)"
    "draws s' = draws s2 + (b - Suc a)" "trace s' = trace s2"
    by (auto simp: layers1_def)
  have l1: "length layers' = length layers"
    using r(2) by (simp add: layers1_def)
  have l2: "\<forall>k. k < a \<or> b \<le> k \<longrightarrow> layers' ! k = layers ! k"
    using r(3) ab by (auto simp: layers1_def)
  have l3: "\<forall>k. a \<le> k \<and> k < b \<longrightarrow>
          layers' ! k = layer_at Sig SigD (length (cells s) + 5 * (k - a)) False \<and>
          constructed s' (length (cells s) + 5 * (k - a)) (nat n) (nat n)"
  proof (intro allI impI)
    fix k assume k: "a \<le> k \<and> k < b"
    show "layers' ! k = layer_at Sig SigD (length (cells s) + 5 * (k - a)) False \<and>
          constructed s' (length (cells s) + 5 * (k - a)) (nat n) (nat n)"
    proof (cases "k = a")
      case True
      have "layers' ! a = layers1 ! a" using r(3) by simp
      also have "\<dots> = layer_at Sig SigD (length (cells s)) False"
        using alen by (simp add: layers1_def)
      finally show ?thesis
        using True constructed_extend [OF c0 r(5)] by simp
    next
      case False
      with k have k': "Suc a \<le> k \<and> k < b" by simp
      have "length (cells s2) + 5 * (k - Suc a) = length (cells s) + 5 * (k - a)"
        using k' unfolding len2 by arith
      with r(4) k' show ?thesis by metis
    qed
  qed
  have l4: "\<exists>extra. cells s' = cells s @ extra \<and> length extra = 5 * (b - a)"
  proof -
    have "cells s' = cells s @ ([w, zeros 1 (cols w), zeros 1 1, zeros 1 1, zeros 1 1] @ extra)"
      using r(5) by (simp add: s2_def)
    moreover have "length ([w, zeros 1 (cols w), zeros 1 1, zeros 1 1, zeros 1 1] @ extra)
                     = 5 * (b - a)"
      using r(6) ab by simp
    ultimately show ?thesis by blast
  qed
  have l5: "draws s' = draws s + (b - a)" "trace s' = trace s"
    using r(7,8) ab by (simp_all add: dr2 tr2)
  from step r(1) l1 l2 l3 l4 l5 show ?case by simp
qed

lemma wrap64_id: "- (2 ^ 63) \<le> x \<Longrightarrow> x < 2 ^ 63 \<Longrightarrow> wrap64 x = x"
  by (simp add: wrap64_def)

lemma NewNetwork_built:
  assumes init: "good_init kaiming" and n: "0 < n" and w: "0 < w"
    and h: "0 \<le> h" "h + 2 < 2 ^ 63"
  shows "\<exists>net s'. NewNetwork kaiming Sig SigD s n h w = Inr ((net, None), s') \<and>
      length (Layers net) = nat h + 2 \<and> NumberOfLayers net = h + 2 \<and> NeuronsPerLayer net = n \<and>
      (\<forall>k < nat h + 2.
         Layers net ! k = layer_at Sig SigD (length (cells s) + 5 * k) (k = nat h + 1) \<and>
         constructed s' (length (cells s) + 5 * k)
           (if k = 0 then nat w else nat n) (if k = nat h + 1 then 1 else nat n)) \<and>
      (\<exists>extra. cells s' = cells s @ extra \<and> length extra = 5 * (nat h + 2)) \<and>
      draws s' = draws s + nat h + 2 \<and> trace s' = trace s"
proof -
  define H where "H = nat h"
  have hH: "h = int H" using h by (simp add: H_def)
  have w2: "wrap64 (h + 2) = int (H + 2)" and w1: "wrap64 (h + 1) = int (H + 1)"
    using h by (simp_all add: wrap64_id hH)
  define layers0 :: "'a Layer list" where "layers0 = replicate (H + 2) zeroLayer"
  have mk: "make_layers (int (H + 2)) = Inr layers0"
    by (simp add: make_layers_def layers0_def del: replicate_Suc)
  from init n w obtain w0 where w0: "kaiming (draws s) w n = Inr w0"
    and rw0: "rows w0 = nat w" and cw0: "cols w0 = nat n"
    unfolding good_init_def by (metis nat_int)
  from cw0 n have c0pos: "0 < cols w0" by simp
  define s2 where
    "s2 = s\<lparr>cells := cells s @ [w0, zeros 1 (cols w0), zeros 1 1, zeros 1 1, zeros 1 1],
            draws := Suc (draws s)\<rparr>"
  define layers1 where "layers1 = layers0[0 := layer_at Sig SigD (length (cells s)) False]"
  have len1: "length layers1 = H + 2" by (simp add: layers1_def layers0_def)
  have c0: "constructed s2 (length (cells s)) (nat w) (nat n)"
    unfolding s2_def using constructed_new [where s = s and w = w0, OF refl] by (simp add: rw0 cw0)
  have len2: "length (cells s2) = length (cells s) + 5"
    and dr2: "draws s2 = Suc (draws s)" and tr2: "trace s2 = trace s"
    by (simp_all add: s2_def)
  from hidden_loop_built [OF init n, of 1 "H + 1" layers1 Sig SigD s2]
  obtain layers2 s3 extra where r:
    "hidden_loop kaiming Sig SigD s2 layers1 n (int 1) (int (H + 1)) = Inr (layers2, s3)"
    "length layers2 = length layers1"
    "\<forall>k. k < 1 \<or> H + 1 \<le> k \<longrightarrow> layers2 ! k = layers1 ! k"
    "\<forall>k. 1 \<le> k \<and> k < H + 1 \<longrightarrow>
          layers2 ! k = layer_at Sig SigD (length (cells s2) + 5 * (k - 1)) False \<and>
          constructed s3 (length (cells s2) + 5 * (k - 1)) (nat n) (nat n)"
    "cells s3 = cells s2 @ extra" "length extra = 5 * (H + 1 - 1)"
    "draws s3 = draws s2 + (H + 1 - 1)" "trace s3 = trace s2"
    by (auto simp: len1)
  from init n obtain wl where wl: "kaiming (draws s3) n 1 = Inr wl"
    and rwl: "rows wl = nat n" and cwl: "cols wl = 1"
    unfolding good_init_def by (metis nat_int nat_one_as_int zero_less_one)
  have clpos: "0 < cols wl" by (simp add: cwl)
  define s5 where
    "s5 = s3\<lparr>cells := cells s3 @ [wl, zeros 1 (cols wl), zeros 1 1, zeros 1 1, zeros 1 1],
             draws := Suc (draws s3)\<rparr>"
  define layers3 where "layers3 = layers2[H + 1 := layer_at Sig SigD (length (cells s3)) True]"
  define net where
    "net = \<lparr>Layers = layers3, NeuronsPerLayer = n, NumberOfLayers = int (H + 2)\<rparr>"
  have len3c: "length (cells s3) = length (cells s) + 5 * (H + 1)"
    using r(5,6) by (simp add: len2)
  have cl: "constructed s5 (length (cells s3)) (nat n) 1"
    unfolding s5_def using constructed_new [where s = s3 and w = wl, OF refl]
    by (simp add: rwl cwl)
  have s5ext: "cells s5 = cells s3 @ [wl, zeros 1 (cols wl), zeros 1 1, zeros 1 1, zeros 1 1]"
    by (simp add: s5_def)
  have e1: "make_layers (wrap64 (h + 2)) = Inr layers0"
    using mk by (simp only: w2)
  have e2: "bindE (KaimingInitialization kaiming s w n)
              (\<lambda>(p, s1). bindE (layerConstructor Sig SigD s1 p False) k)
            = k (layer_at Sig SigD (length (cells s)) False, s2)" for k :: "_ \<Rightarrow> panic + (('a Network \<times> go_error option) \<times> 'a state)"
    unfolding s2_def by (rule construct_layer [where kaiming = kaiming, OF w0 c0pos])
  have e3: "set_index layers0 0 (layer_at Sig SigD (length (cells s)) False) = Inr layers1"
    by (simp add: set_index_def layers1_def layers0_def)
  have e4: "hidden_loop kaiming Sig SigD s2 layers1 n 1 (wrap64 (h + 1)) = Inr (layers2, s3)"
    using r(1) by (simp add: w1)
  have e5: "bindE (KaimingInitialization kaiming s3 n 1)
              (\<lambda>(p, s1). bindE (layerConstructor Sig SigD s1 p True) k)
            = k (layer_at Sig SigD (length (cells s3)) True, s5)" for k :: "_ \<Rightarrow> panic + (('a Network \<times> go_error option) \<times> 'a state)"
    unfolding s5_def by (rule construct_layer [where kaiming = kaiming, OF wl clpos])
  have e6: "set_index layers2 (wrap64 (h + 1)) (layer_at Sig SigD (length (cells s3)) True)
              = Inr layers3"
    unfolding w1 using r(2) len1
    by (subst set_index_Inr) (simp_all add: layers3_def)
  have run: "NewNetwork kaiming Sig SigD s n h w = Inr ((net, None), s5)"
    unfolding NewNetwork_def
    by (simp only: w2 mk e2 e3 e4 e5 e6 bindE_Inr prod.case net_def)
  have L: "length (Layers net) = H + 2"
    by (simp add: net_def layers3_def r(2) len1)
  have each: "\<forall>k < H + 2.
         Layers net ! k = layer_at Sig SigD (length (cells s) + 5 * k) (k = H + 1) \<and>
         constructed s5 (length (cells s) + 5 * k)
           (if k = 0 then nat w else nat n) (if k = H + 1 then 1 else nat n)"
  proof (intro allI impI)
    fix k assume k: "k < H + 2"
    consider "k = 0" | "1 \<le> k \<and> k < H + 1" | "k = H + 1" using k by linarith
    then show "Layers net ! k = layer_at Sig SigD (length (cells s) + 5 * k) (k = H + 1) \<and>
         constructed s5 (length (cells s) + 5 * k)
           (if k = 0 then nat w else nat n) (if k = H + 1 then 1 else nat n)"
    proof cases
      case 1
      have "layers2 ! 0 = layers1 ! 0" using r(3) by simp
      then have "Layers net ! 0 = layer_at Sig SigD (length (cells s)) False"
        by (simp add: net_def layers3_def layers1_def layers0_def)
      moreover have "constructed s5 (length (cells s)) (nat w) (nat n)"
        using constructed_extend [OF constructed_extend [OF c0 r(5)] s5ext] .
      ultimately show ?thesis using 1 by simp
    next
      case 2
      have e: "length (cells s2) + 5 * (k - 1) = length (cells s) + 5 * k"
        using 2 unfolding len2 by arith
      from r(4) 2 have a1: "layers2 ! k = layer_at Sig SigD (length (cells s) + 5 * k) False"
        and a2: "constructed s3 (length (cells s) + 5 * k) (nat n) (nat n)"
        unfolding e [symmetric] by blast+
      have "Layers net ! k = layer_at Sig SigD (length (cells s) + 5 * k) False"
        using 2 a1 by (simp add: net_def layers3_def)
      moreover have "constructed s5 (length (cells s) + 5 * k) (nat n) (nat n)"
        using a2 s5ext by (rule constructed_extend)
      ultimately have "Layers net ! k = layer_at Sig SigD (length (cells s) + 5 * k) False \<and>
          constructed s5 (length (cells s) + 5 * k) (nat n) (nat n)" by simp
      then show ?thesis using 2 by simp
    next
      case 3
      have "Layers net ! (H + 1) = layer_at Sig SigD (length (cells s3)) True"
        by (simp add: net_def layers3_def r(2) len1)
      with cl show ?thesis using 3 by (simp add: len3c)
    qed
  qed
  have ext: "\<exists>extra. cells s5 = cells s @ extra \<and> length extra = 5 * (H + 2)"
  proof -
    have "cells s5 = cells s @ ([w0, zeros 1 (cols w0), zeros 1 1, zeros 1 1, zeros 1 1] @ extra
             @ [wl, zeros 1 (cols wl), zeros 1 1, zeros 1 1, zeros 1 1])"
      using r(5) by (simp add: s5_def s2_def)
    moreover have "length ([w0, zeros 1 (cols w0), zeros 1 1, zeros 1 1, zeros 1 1] @ extra
             @ [wl, zeros 1 (cols wl), zeros 1 1, zeros 1 1, zeros 1 1]) = 5 * (H + 2)"
      using r(6) by simp
    ultimately show ?thesis by blast
  qed
  have rest: "draws s5 = draws s + H + 2" "trace s5 = trace s"
    "NumberOfLayers net = h + 2" "NeuronsPerLayer net = n"
    using r(7,8) by (simp_all add: s5_def dr2 tr2 net_def hH)
  from run L each ext rest show ?thesis
    unfolding H_def [symmetric] by blast
qed

lemma constructed_deref:
  assumes "constructed s base r c"
  shows "deref s (base + 1) = Inr (cells s ! base)"
    and "deref s (base + 2) = Inr (zeros 1 c)"
    and "deref s (base + 3) = Inr (zeros 1 1)"
    and "deref s (base + 4) = Inr (zeros 1 1)"
    and "deref s (base + 5) = Inr (zeros 1 1)"
    and "rows (cells s ! base) = r" and "cols (cells s ! base) = c"
  using assms by (simp_all add: constructed_def deref_def valid_def add.commute)

lemma good_init_ramp: "good_init ramp_init"
  by (auto simp: good_init_def ramp_init_def)

lemma hidden_loop_returns:
  assumes init: "returns_init kaiming"
  shows "b \<le> length layers \<Longrightarrow>
    \<exists>layers' s'. hidden_loop kaiming Sig SigD s layers n (int a) (int b) = Inr (layers', s') \<and>
       length layers' = length layers"
proof (induction "b - a" arbitrary: a s layers)
  case 0
  then have "\<not> int a < int b" by simp
  then show ?case
    by (subst hidden_loop.simps) simp
next
  case (Suc m)
  then have ab: "a < b" and m: "m = b - Suc a" by simp_all
  from init obtain w where w: "kaiming (draws s) n n = Inr w" and cpos: "0 < cols w"
    unfolding returns_init_def by blast
  define s2 where
    "s2 = s\<lparr>cells := cells s @ [w, zeros 1 (cols w), zeros 1 1, zeros 1 1, zeros 1 1],
            draws := Suc (draws s)\<rparr>"
  define layers1 where "layers1 = layers[a := layer_at Sig SigD (length (cells s)) False]"
  have alen: "a < length layers" using ab Suc.prems by simp
  have step: "hidden_loop kaiming Sig SigD s layers n (int a) (int b)
                = hidden_loop kaiming Sig SigD s2 layers1 n (int (Suc a)) (int b)"
    using ab alen
    by (subst hidden_loop.simps)
       (simp add: construct_layer [where kaiming = kaiming, OF w cpos] set_index_Inr
          s2_def layers1_def add.commute)
  from Suc.hyps(1) [OF m, of layers1 s2] Suc.prems
  show ?case unfolding step by (simp add: layers1_def)
qed

lemma ForwardPass_shapes:
  assumes W: "deref s (Weights layer) = Inr w"
    and B: "deref s (Bias layer) = Inr b"
    and fn: "ActivationFunc layer = Some f" "ActivationPrimeFunc layer = Some f'"
    and caches: "valid s (Activations layer)" "valid s (Gradient layer)"
      "Activations layer \<noteq> Gradient layer"
    and shape: "rows input = 1" "cols input = rows w" "rows b = 1" "cols b = cols w"
  shows "\<exists>s' a g. ForwardPass s layer input = Inr s' \<and>
           deref s' (Activations layer) = Inr a \<and> deref s' (Gradient layer) = Inr g \<and>
           rows a = 1 \<and> cols a = cols w \<and> rows g = 1 \<and> cols g = cols w"
proof -
  obtain z where mz: "Multiply input w = Inr z" and z: "rows z = 1" "cols z = cols w"
    using shape by (simp add: Multiply_def)
  obtain zB where az: "Add z b = Inr zB" and zB: "rows zB = 1" "cols zB = cols w"
    using shape z by (simp add: Add_def zip_elems_def)
  obtain a where ma: "Map (ActivationFunc layer) zB = Inr a" and a: "rows a = 1" "cols a = cols w"
    using zB by (simp add: Map_def fn)
  obtain g where mg: "Map (ActivationPrimeFunc layer) zB = Inr g"
    and g: "rows g = 1" "cols g = cols w"
    using zB by (simp add: Map_def fn)
  let ?s' = "s\<lparr>cells := ((cells s @ [a])[Activations layer - 1 := a] @ [g])[Gradient layer - 1 := g]\<rparr>"
  have "ForwardPass s layer input = Inr ?s'"
    by (rule ForwardPass_succeeds [OF W mz B az ma mg caches(1,2)])
  moreover have "deref ?s' (Activations layer) = Inr a" "deref ?s' (Gradient layer) = Inr g"
    using caches by (simp_all add: deref_forward_cells)
  ultimately show ?thesis using a g by blast
qed

subsection \<open>Predict\<close>

lemma caches_Cons [simp]: "caches (l # ls) = Activations l # Gradient l # caches ls"
  and caches_Nil [simp]: "caches [] = []"
  and params_Cons [simp]: "params (l # ls) = Weights l # Bias l # Delta l # params ls"
  and params_Nil [simp]: "params [] = []"
  by (simp_all add: caches_def params_def)

lemma caches_append [simp]: "caches (xs @ ys) = caches xs @ caches ys"
  and params_append [simp]: "params (xs @ ys) = params xs @ params ys"
  by (simp_all add: caches_def params_def)

lemma owned_Cons:
  assumes "owned s (l # ls)"
  shows "owned s ls"
    and "valid s (Activations l)" "valid s (Gradient l)" "Activations l \<noteq> Gradient l"
    and "valid s (Weights l)" "valid s (Bias l)" "valid s (Delta l)"
    and "Activations l \<notin> set (caches ls)" "Gradient l \<notin> set (caches ls)"
    and "Weights l \<notin> set (caches (l # ls))" "Bias l \<notin> set (caches (l # ls))"
      "Delta l \<notin> set (caches (l # ls))"
    and "Activations l \<notin> set (params (l # ls))" "Gradient l \<notin> set (params (l # ls))"
  using assms by (auto simp: owned_def)

lemma forward_cells_nth:
  assumes "i < length cs" "0 < pa" "0 < pg" "Suc i \<noteq> pa" "Suc i \<noteq> pg"
  shows "((cs @ [a])[pa - Suc 0 := a] @ [g])[pg - Suc 0 := g] ! i = cs ! i"
  using assms by (auto simp: nth_list_update nth_append)

lemma ForwardPass_frame:
  assumes "ForwardPass s l x = Inr s'" "valid s p" "p \<noteq> Activations l" "p \<noteq> Gradient l"
  shows "deref s' p = deref s p"
proof -
  from ForwardPass_Inr [OF assms(1)] obtain a g where
    pos: "0 < Activations l" "0 < Gradient l"
    and s': "s' = s\<lparr>cells := ((cells s @ [a])[Activations l - 1 := a] @ [g])[Gradient l - 1 := g]\<rparr>"
    by blast
  from assms(2) have i: "p - 1 < length (cells s)" "Suc (p - 1) = p"
    by (auto simp: valid_def)
  have "((cells s @ [a])[Activations l - Suc 0 := a] @ [g])[Gradient l - Suc 0 := g] ! (p - 1)
          = cells s ! (p - 1)"
    using i pos assms(3,4) by (intro forward_cells_nth) simp_all
  then show ?thesis
    using assms(2) by (simp add: s' deref_def valid_def)
qed

lemma ForwardPass_keeps:
  assumes "ForwardPass s l x = Inr s'"
  shows "trace s' = trace s" "draws s' = draws s" "valid s p \<Longrightarrow> valid s' p"
    "length (cells s') = length (cells s) + 2"
proof -
  from ForwardPass_Inr [OF assms(1)] obtain a g where
    s': "s' = s\<lparr>cells := ((cells s @ [a])[Activations l - 1 := a] @ [g])[Gradient l - 1 := g]\<rparr>"
    by blast
  show "trace s' = trace s" "draws s' = draws s" "valid s p \<Longrightarrow> valid s' p"
    "length (cells s') = length (cells s) + 2"
    by (simp_all add: s' valid_def)
qed

lemma forward_loop_frame:
  "forward_loop s ls idx x = Inr (out, s') \<Longrightarrow> valid s p \<Longrightarrow> p \<notin> set (caches ls) \<Longrightarrow>
     deref s' p = deref s p \<and> valid s' p"
proof (induction ls arbitrary: s idx x)
  case Nil
  then show ?case by simp
next
  case (Cons l ls)
  from Cons.prems(1) obtain s1 a where
    f: "ForwardPass (emit (EvForward idx) s) l x = Inr s1"
    and d: "deref s1 (Activations l) = Inr a"
    and rest: "forward_loop s1 ls (Suc idx) a = Inr (out, s')"
    by (auto simp: bindE_eq_Inr)
  from Cons.prems(2) have v0: "valid (emit (EvForward idx) s) p" by simp
  from Cons.prems(3) have ne: "p \<noteq> Activations l" "p \<noteq> Gradient l" "p \<notin> set (caches ls)"
    by simp_all
  have v1: "valid s1 p" using ForwardPass_keeps(3) [OF f v0] .
  have "deref s1 p = deref s p"
    using ForwardPass_frame [OF f v0 ne(1,2)] by simp
  with Cons.IH [OF rest v1 ne(3)] show ?case by simp
qed

lemma wired_frame:
  assumes "\<forall>p \<in> set (params ls). deref s' p = deref s p"
  shows "wired s' ls n = wired s ls n"
  using assms by (induction ls arbitrary: n) (simp_all split: sum.splits)

lemma owned_frame:
  assumes "owned s ls" "\<And>p. valid s p \<Longrightarrow> valid s' p"
  shows "owned s' ls"
  using assms by (auto simp: owned_def)

lemma out_cols_frame:
  assumes "\<forall>p \<in> set (params ls). deref s' p = deref s p"
  shows "out_cols s' ls n = out_cols s ls n"
  using assms by (induction ls arbitrary: n) simp_all

lemma wired_ConsD:
  assumes "wired s (l # ls) n"
  obtains w b f f' where "deref s (Weights l) = Inr w" "deref s (Bias l) = Inr b"
    "rows w = n" "rows b = 1" "cols b = cols w"
    "ActivationFunc l = Some f" "ActivationPrimeFunc l = Some f'" "wired s ls (cols w)"
  using assms by (auto split: sum.splits)

lemma forward_loop_runs:
  "wired s ls (cols x) \<Longrightarrow> owned s ls \<Longrightarrow> rows x = 1 \<Longrightarrow>
   \<exists>out s'. forward_loop s ls idx x = Inr (out, s') \<and> rows out = 1 \<and>
     cols out = out_cols s ls (cols x) \<and>
     (\<forall>l\<in>set ls. \<exists>a g w. deref s' (Activations l) = Inr a \<and> deref s' (Gradient l) = Inr g \<and>
        deref s' (Weights l) = Inr w \<and> deref s (Weights l) = Inr w \<and>
        rows a = 1 \<and> cols a = cols w \<and> rows g = 1 \<and> cols g = cols w)"
proof (induction ls arbitrary: s idx x)
  case Nil
  then show ?case by simp
next
  case (Cons l ls)
  let ?s0 = "emit (EvForward idx) s"
  from Cons.prems(1) obtain w b f f' where wd:
    "deref s (Weights l) = Inr w" "deref s (Bias l) = Inr b"
    "rows w = cols x" "rows b = 1" "cols b = cols w"
    "ActivationFunc l = Some f" "ActivationPrimeFunc l = Some f'" "wired s ls (cols w)"
    by (rule wired_ConsD)
  note ow = owned_Cons [OF Cons.prems(2)]
  from ForwardPass_shapes [of ?s0 l w b f f' x] wd ow(2,3,4) Cons.prems(3)
  obtain s1 a g where fp:
    "ForwardPass ?s0 l x = Inr s1"
    "deref s1 (Activations l) = Inr a" "deref s1 (Gradient l) = Inr g"
    "rows a = 1" "cols a = cols w" "rows g = 1" "cols g = cols w"
    by auto
  have keep: "deref s1 p = deref s p" if "valid s p" "p \<noteq> Activations l" "p \<noteq> Gradient l" for p
    using ForwardPass_frame [OF fp(1), of p] that by simp
  have val: "valid s1 p" if "valid s p" for p
    using ForwardPass_keeps(3) [OF fp(1), of p] that by simp
  have pin: "valid s p \<and> p \<noteq> Activations l \<and> p \<noteq> Gradient l" if "p \<in> set (params ls)" for p
    using that Cons.prems(2) by (auto simp: owned_def)
  have pkeep: "\<forall>p \<in> set (params ls). deref s1 p = deref s p"
    using pin keep by blast
  have w1: "wired s1 ls (cols a)"
    using wd(8) by (simp add: wired_frame [OF pkeep] fp(5))
  have o1: "owned s1 ls"
    using ow(1) val by (rule owned_frame)
  from Cons.IH [OF w1 o1 fp(4), of "Suc idx"] obtain out s' where r:
    "forward_loop s1 ls (Suc idx) a = Inr (out, s')" "rows out = 1"
    "cols out = out_cols s1 ls (cols a)"
    and each: "\<forall>l\<in>set ls. \<exists>a g w. deref s' (Activations l) = Inr a \<and> deref s' (Gradient l) = Inr g \<and>
        deref s' (Weights l) = Inr w \<and> deref s1 (Weights l) = Inr w \<and>
        rows a = 1 \<and> cols a = cols w \<and> rows g = 1 \<and> cols g = cols w"
    by blast
  have run: "forward_loop s (l # ls) idx x = Inr (out, s')"
    by (simp add: fp(1) fp(2) r(1))
  have oc: "cols out = out_cols s (l # ls) (cols x)"
    by (simp add: r(3) out_cols_frame [OF pkeep] wd(1) fp(5))
  have hd_a: "deref s' (Activations l) = Inr a"
    using forward_loop_frame [OF r(1) val [OF ow(2)] ow(8)] fp(2) by simp
  have hd_g: "deref s' (Gradient l) = Inr g"
    using forward_loop_frame [OF r(1) val [OF ow(3)] ow(9)] fp(3) by simp
  have "Weights l \<noteq> Activations l" "Weights l \<noteq> Gradient l" "Weights l \<notin> set (caches ls)"
    using ow(10) by simp_all
  then have hd_w: "deref s' (Weights l) = Inr w"
    using forward_loop_frame [OF r(1) val [OF ow(5)]] keep [OF ow(5)] wd(1) by simp
  have tl: "\<exists>a g w. deref s' (Activations l') = Inr a \<and> deref s' (Gradient l') = Inr g \<and>
        deref s' (Weights l') = Inr w \<and> deref s (Weights l') = Inr w \<and>
        rows a = 1 \<and> cols a = cols w \<and> rows g = 1 \<and> cols g = cols w"
    if "l' \<in> set ls" for l'
  proof -
    from that have "Weights l' \<in> set (params ls)"
      by (auto simp: params_def)
    then have "deref s1 (Weights l') = deref s (Weights l')"
      using pkeep by blast
    with each that show ?thesis by fastforce
  qed
  from run r(2) oc hd_a hd_g hd_w wd(1) fp(4-7) tl show ?case
    by auto
qed

lemma rows_zeros [simp]: "rows (zeros r c) = r" and cols_zeros [simp]: "cols (zeros r c) = c"
  by (simp_all add: zeros_def)

lemma layers_at_owned:
  fixes Sig SigD :: "nat \<Rightarrow> nat \<Rightarrow> 'a \<Rightarrow> 'a"
  defines "ls L n0 flag \<equiv> map (\<lambda>k. layer_at Sig SigD (n0 + 5 * k) (flag k)) [0..<L]"
  shows "distinct (caches (ls L n0 flag)) \<and>
         set (caches (ls L n0 flag)) \<inter> set (params (ls L n0 flag)) = {} \<and>
         (\<forall>p \<in> set (caches (ls L n0 flag)) \<union> set (params (ls L n0 flag)).
            n0 < p \<and> p \<le> n0 + 5 * L)"
proof (induction L)
  case 0
  then show ?case by (simp add: ls_def)
next
  case (Suc L)
  have step: "ls (Suc L) n0 flag = ls L n0 flag @ [layer_at Sig SigD (n0 + 5 * L) (flag L)]"
    by (simp add: ls_def)
  let ?X = "ls L n0 flag"
  have new: "caches [layer_at Sig SigD (n0 + 5 * L) (flag L)] = [n0 + 5 * L + 5, n0 + 5 * L + 4]"
    "params [layer_at Sig SigD (n0 + 5 * L) (flag L)]
       = [n0 + 5 * L + 1, n0 + 5 * L + 2, n0 + 5 * L + 3]"
    by (simp_all add: layer_at_def)
  from Suc have d: "distinct (caches ?X)" and i: "set (caches ?X) \<inter> set (params ?X) = {}"
    and b: "\<And>p. p \<in> set (caches ?X) \<union> set (params ?X) \<Longrightarrow> n0 < p \<and> p \<le> n0 + 5 * L"
    by blast+
  have nin: "q \<notin> set (caches ?X) \<and> q \<notin> set (params ?X)" if "n0 + 5 * L < q" for q
    using b [of q] that by auto
  have g1: "distinct (caches (?X @ [layer_at Sig SigD (n0 + 5 * L) (flag L)]))"
    using d nin [of "n0 + 5 * L + 5"] nin [of "n0 + 5 * L + 4"] by (simp add: layer_at_def)
  have g2: "set (caches (?X @ [layer_at Sig SigD (n0 + 5 * L) (flag L)]))
              \<inter> set (params (?X @ [layer_at Sig SigD (n0 + 5 * L) (flag L)])) = {}"
    using i nin [of "n0 + 5 * L + 5"] nin [of "n0 + 5 * L + 4"] nin [of "n0 + 5 * L + 1"]
      nin [of "n0 + 5 * L + 2"] nin [of "n0 + 5 * L + 3"]
    by (auto simp: layer_at_def)
  have g3: "\<forall>p \<in> set (caches (?X @ [layer_at Sig SigD (n0 + 5 * L) (flag L)]))
              \<union> set (params (?X @ [layer_at Sig SigD (n0 + 5 * L) (flag L)])).
            n0 < p \<and> p \<le> n0 + 5 * Suc L"
    using b by (fastforce simp: layer_at_def)
  from g1 g2 g3 show ?case
    unfolding step by blast
qed

lemma constructed_wired:
  assumes "\<forall>k<length ls. ls ! k = layer_at Sig SigD (b0 + 5 * k) (flag k) \<and>
             constructed s (b0 + 5 * k) (r k) (c k)"
    and "\<forall>k. Suc k < length ls \<longrightarrow> r (Suc k) = c k"
    and "ls \<noteq> [] \<longrightarrow> r 0 = inW"
  shows "wired s ls inW \<and> out_cols s ls inW = (if ls = [] then inW else c (length ls - 1))"
  using assms
proof (induction ls arbitrary: b0 flag r c inW)
  case Nil
  then show ?case by simp
next
  case (Cons l ls)
  from Cons.prems(1) have l: "l = layer_at Sig SigD b0 (flag 0)"
    and c0: "constructed s b0 (r 0) (c 0)"
    by force+
  note d = constructed_deref [OF c0]
  have tl: "\<forall>k<length ls. ls ! k = layer_at Sig SigD (b0 + 5 + 5 * k) ((flag \<circ> Suc) k) \<and>
             constructed s (b0 + 5 + 5 * k) ((r \<circ> Suc) k) ((c \<circ> Suc) k)"
  proof (intro allI impI)
    fix k assume "k < length ls"
    with Cons.prems(1) have "(l # ls) ! Suc k = layer_at Sig SigD (b0 + 5 * Suc k) (flag (Suc k)) \<and>
             constructed s (b0 + 5 * Suc k) (r (Suc k)) (c (Suc k))"
      by (metis Suc_less_eq length_Cons)
    then show "ls ! k = layer_at Sig SigD (b0 + 5 + 5 * k) ((flag \<circ> Suc) k) \<and>
             constructed s (b0 + 5 + 5 * k) ((r \<circ> Suc) k) ((c \<circ> Suc) k)"
      by (simp add: add.assoc)
  qed
  have ch: "\<forall>k. Suc k < length ls \<longrightarrow> (r \<circ> Suc) (Suc k) = (c \<circ> Suc) k"
    using Cons.prems(2) by simp
  have st: "ls \<noteq> [] \<longrightarrow> (r \<circ> Suc) 0 = c 0"
    using Cons.prems(2) by (cases ls) simp_all
  from Cons.IH [OF tl ch st]
  have ih: "wired s ls (c 0)"
    "out_cols s ls (c 0) = (if ls = [] then c 0 else (c \<circ> Suc) (length ls - 1))"
    by simp_all
  have hdw: "deref s (Weights l) = Inr (cells s ! b0)"
    "deref s (Bias l) = Inr (zeros 1 (c 0))"
    using d(1,2) by (simp_all add: l layer_at_def)
  have "wired s (l # ls) inW"
    using ih(1) hdw d(6,7) Cons.prems(3) by (simp add: l layer_at_def)
  moreover have "out_cols s (l # ls) inW = c (length (l # ls) - 1)"
    using ih(2) hdw d(7) by (cases ls) simp_all
  ultimately show ?case by simp
qed

lemma NewNetwork_wellformed:
  assumes init: "good_init kaiming" and sizes: "0 < n" "0 < w"
    and hidden: "0 \<le> h" "h + 2 < 2 ^ 63"
  shows "\<exists>net s'. NewNetwork kaiming Sig SigD s n h w = Inr ((net, None), s') \<and>
      wired s' (Layers net) (nat w) \<and> owned s' (Layers net) \<and>
      out_cols s' (Layers net) (nat w) = 1 \<and>
      length (Layers net) = nat h + 2 \<and> NumberOfLayers net = h + 2 \<and>
      (\<forall>l \<in> set (Layers net). \<exists>W.
         deref s' (Weights l) = Inr W \<and> deref s' (Bias l) = Inr (zeros 1 (cols W)) \<and>
         deref s' (Delta l) = Inr (zeros 1 1) \<and> deref s' (Gradient l) = Inr (zeros 1 1) \<and>
         deref s' (Activations l) = Inr (zeros 1 1))"
proof -
  define L where "L = nat h + 2"
  define flag where "flag = (\<lambda>k. k = nat h + 1)"
  define r where "r = (\<lambda>k::nat. if k = 0 then nat w else nat n)"
  define c where "c = (\<lambda>k. if k = nat h + 1 then 1 else nat n)"
  from NewNetwork_built [OF init sizes hidden, of Sig SigD s]
  obtain net s' extra where run: "NewNetwork kaiming Sig SigD s n h w = Inr ((net, None), s')"
    and len: "length (Layers net) = L" and nl: "NumberOfLayers net = h + 2"
    and each: "\<forall>k < L. Layers net ! k = layer_at Sig SigD (length (cells s) + 5 * k) (flag k) \<and>
         constructed s' (length (cells s) + 5 * k) (r k) (c k)"
    and ext: "cells s' = cells s @ extra" "length extra = 5 * L"
    unfolding L_def flag_def r_def c_def by blast
  have chain: "\<forall>k. Suc k < length (Layers net) \<longrightarrow> r (Suc k) = c k"
    by (simp add: len L_def r_def c_def)
  have start: "Layers net \<noteq> [] \<longrightarrow> r 0 = nat w"
    by (simp add: r_def)
  from constructed_wired [OF _ chain start, where Sig = Sig and SigD = SigD
      and ?b0.0 = "length (cells s)" and flag = flag and s = s'] each len
  have wi: "wired s' (Layers net) (nat w)"
    and oc: "out_cols s' (Layers net) (nat w) = (if Layers net = [] then nat w else c (L - 1))"
    by simp_all
  have ne: "Layers net \<noteq> []" using len by (auto simp: L_def)
  have oc1: "out_cols s' (Layers net) (nat w) = 1"
    using oc ne by (simp add: c_def L_def)
  have eq: "Layers net = map (\<lambda>k. layer_at Sig SigD (length (cells s) + 5 * k) (flag k)) [0..<L]"
    using each len by (intro nth_equalityI) simp_all
  from layers_at_owned [where Sig = Sig and SigD = SigD and L = L
      and ?n0.0 = "length (cells s)" and flag = flag]
  have d: "distinct (caches (Layers net))"
    and i: "set (caches (Layers net)) \<inter> set (params (Layers net)) = {}"
    and b: "\<forall>p \<in> set (caches (Layers net)) \<union> set (params (Layers net)).
              length (cells s) < p \<and> p \<le> length (cells s) + 5 * L"
    unfolding eq by blast+
  have "\<forall>p \<in> set (caches (Layers net)) \<union> set (params (Layers net)). valid s' p"
    using b ext by (auto simp: valid_def)
  with d i have ow: "owned s' (Layers net)"
    by (simp add: owned_def)
  have fresh: "\<exists>W. deref s' (Weights l) = Inr W \<and> deref s' (Bias l) = Inr (zeros 1 (cols W)) \<and>
         deref s' (Delta l) = Inr (zeros 1 1) \<and> deref s' (Gradient l) = Inr (zeros 1 1) \<and>
         deref s' (Activations l) = Inr (zeros 1 1)"
    if "l \<in> set (Layers net)" for l
  proof -
    from that len obtain k where k: "k < L" "l = Layers net ! k"
      by (auto simp: in_set_conv_nth)
    with each have l: "l = layer_at Sig SigD (length (cells s) + 5 * k) (flag k)"
      and co: "constructed s' (length (cells s) + 5 * k) (r k) (c k)"
      by simp_all
    note dd = constructed_deref [OF co]
    show ?thesis
      using dd by (simp add: l layer_at_def)
  qed
  from run wi ow oc1 len nl fresh show ?thesis
    unfolding L_def by blast
qed

lemma forward_loop_valid:
  "forward_loop s ls idx x = Inr (out, s') \<Longrightarrow> valid s p \<Longrightarrow> valid s' p"
proof (induction ls arbitrary: s idx x)
  case Nil
  then show ?case by simp
next
  case (Cons l ls)
  from Cons.prems(1) obtain s1 a where
    f: "ForwardPass (emit (EvForward idx) s) l x = Inr s1"
    and rest: "forward_loop s1 ls (Suc idx) a = Inr (out, s')"
    by (auto simp: bindE_eq_Inr)
  have "valid s1 p" using ForwardPass_keeps(3) [OF f, of p] Cons.prems(2) by simp
  with Cons.IH [OF rest] show ?case .
qed

lemma forward_loop_again:
  "forward_loop s1 ls idx x = Inr (out, s1') \<Longrightarrow> owned s1 ls \<Longrightarrow> owned s2 ls \<Longrightarrow>
   \<forall>p\<in>set (params ls). deref s2 p = deref s1 p \<Longrightarrow>
   \<exists>s2'. forward_loop s2 ls idx' x = Inr (out, s2')"
proof (induction ls arbitrary: s1 s2 idx idx' x)
  case Nil
  then show ?case by simp
next
  case (Cons l ls)
  let ?t1 = "emit (EvForward idx) s1" and ?t2 = "emit (EvForward idx') s2"
  from Cons.prems(1) obtain s1a a where
    f1: "ForwardPass ?t1 l x = Inr s1a"
    and d1: "deref s1a (Activations l) = Inr a"
    and rest: "forward_loop s1a ls (Suc idx) a = Inr (out, s1')"
    by (auto simp: bindE_eq_Inr)
  note o1 = owned_Cons [OF Cons.prems(2)] and o2 = owned_Cons [OF Cons.prems(3)]
  from ForwardPass_Inr [OF f1] obtain w z b zB av g where c:
    "deref s1 (Weights l) = Inr w" "Multiply x w = Inr z"
    "deref s1 (Bias l) = Inr b" "Add z b = Inr zB"
    "Map (ActivationFunc l) zB = Inr av" "Map (ActivationPrimeFunc l) zB = Inr g"
    and s1a: "s1a = ?t1\<lparr>cells := ((cells ?t1 @ [av])[Activations l - 1 := av] @ [g])
                              [Gradient l - 1 := g]\<rparr>"
    by auto
  have same: "deref s2 (Weights l) = Inr w" "deref s2 (Bias l) = Inr b"
    using Cons.prems(4) c(1,3) by simp_all
  define s2a where
    "s2a = ?t2\<lparr>cells := ((cells ?t2 @ [av])[Activations l - 1 := av] @ [g])[Gradient l - 1 := g]\<rparr>"
  have f2: "ForwardPass ?t2 l x = Inr s2a"
    unfolding s2a_def using same c(2,4,5,6) o2(2,3)
    by (intro ForwardPass_succeeds [where w = w and z = z and b = b and zB = zB]) simp_all
  have a1: "deref s1a (Activations l) = (if Activations l = Gradient l then Inr g else Inr av)"
    unfolding s1a using o1(2,3) by (auto simp: deref_def valid_def nth_list_update nth_append)
  have a2: "deref s2a (Activations l) = (if Activations l = Gradient l then Inr g else Inr av)"
    unfolding s2a_def using o2(2,3) by (auto simp: deref_def valid_def nth_list_update nth_append)
  have d2: "deref s2a (Activations l) = Inr a"
    using a1 a2 d1 by simp
  have v1: "valid s1a p" if "valid s1 p" for p
    using ForwardPass_keeps(3) [OF f1, of p] that by simp
  have v2: "valid s2a p" if "valid s2 p" for p
    using ForwardPass_keeps(3) [OF f2, of p] that by simp
  have oa1: "owned s1a ls" using o1(1) v1 by (rule owned_frame)
  have oa2: "owned s2a ls" using o2(1) v2 by (rule owned_frame)
  have agree: "\<forall>p\<in>set (params ls). deref s2a p = deref s1a p"
  proof
    fix p assume p: "p \<in> set (params ls)"
    then have ne: "p \<noteq> Activations l" "p \<noteq> Gradient l"
      using Cons.prems(2) by (auto simp: owned_def)
    have vp: "valid s1 p" "valid s2 p"
      using p Cons.prems(2,3) by (auto simp: owned_def)
    have "deref s1a p = deref s1 p"
      using ForwardPass_frame [OF f1 _ ne] vp(1) by simp
    moreover have "deref s2a p = deref s2 p"
      using ForwardPass_frame [OF f2 _ ne] vp(2) by simp
    ultimately show "deref s2a p = deref s1a p"
      using Cons.prems(4) p by simp
  qed
  from Cons.IH [OF rest oa1 oa2 agree, of "Suc idx'"] obtain s2' where
    "forward_loop s2a ls (Suc idx') a = Inr (out, s2')" by blast
  then show ?case
    by (simp add: f2 d2)
qed

lemma Predict_keeps:
  assumes "Predict s network input = Inr (out, s')" "owned s (Layers network)"
  shows "owned s' (Layers network)"
    and "\<forall>p\<in>set (params (Layers network)). deref s' p = deref s p"
proof -
  from assms(1) have f: "forward_loop s (Layers network) 0 input = Inr (out, s')"
    by (simp add: Predict_def)
  show "owned s' (Layers network)"
    using assms(2) forward_loop_valid [OF f] by (rule owned_frame)
  show "\<forall>p\<in>set (params (Layers network)). deref s' p = deref s p"
    using assms(2) forward_loop_frame [OF f]
    by (auto simp: owned_def)
qed

lemma Predict_times_same:
  assumes first: "Predict s network input = Inr (out, s')" and o: "owned s (Layers network)"
  shows "owned t (Layers network) \<Longrightarrow>
         \<forall>p\<in>set (params (Layers network)). deref t p = deref s p \<Longrightarrow>
         \<exists>tn. Predict_times n t network input = Inr (replicate n out, tn) \<and>
              owned tn (Layers network) \<and>
              (\<forall>p\<in>set (params (Layers network)). deref tn p = deref s p)"
proof (induction n arbitrary: t)
  case 0
  then show ?case by simp
next
  case (Suc n)
  from first have f: "forward_loop s (Layers network) 0 input = Inr (out, s')"
    by (simp add: Predict_def)
  from forward_loop_again [OF f o Suc.prems(1) Suc.prems(2), of 0]
  obtain t1 where p: "Predict t network input = Inr (out, t1)"
    by (auto simp: Predict_def)
  note k = Predict_keeps [OF p Suc.prems(1)]
  have "\<forall>p\<in>set (params (Layers network)). deref t1 p = deref s p"
    using k(2) Suc.prems(2) by simp
  from Suc.IH [OF k(1) this] obtain tn where
    "Predict_times n t1 network input = Inr (replicate n out, tn)"
    "owned tn (Layers network)"
    "\<forall>p\<in>set (params (Layers network)). deref tn p = deref s p"
    by blast
  then show ?case
    by (simp add: p)
qed

subsection \<open>Column counts\<close>

lemma col_at_Some: "col_at s p = Some c \<longleftrightarrow> (\<exists>m. deref s p = Inr m \<and> cols m = c)"
  by (auto simp: col_at_def split: sum.splits)

lemma col_at_valid: "col_at s p = Some c \<Longrightarrow> valid s p"
  by (auto simp: col_at_Some dest: deref_Inr_valid)

lemma same_cols_iff:
  "same_cols s (p # qs) \<longleftrightarrow> (\<exists>c. \<forall>q \<in> set (p # qs). col_at s q = Some c)"
  by (auto simp: same_cols_def)

lemma ForwardPass_cols:
  assumes run: "ForwardPass s l x = Inr s'"
    and caches: "valid s (Activations l)" "valid s (Gradient l)"
    and apart: "{Activations l, Gradient l} \<inter> set (Bias l # Weights l # ps) = {}"
    and before: "same_cols s (Bias l # Weights l # ps)"
  shows "same_cols s' (Bias l # Weights l # Activations l # Gradient l # ps)"
proof -
  from ForwardPass_Inr [OF run] obtain w z b zB a g where c:
    "deref s (Weights l) = Inr w" "Multiply x w = Inr z"
    "deref s (Bias l) = Inr b" "Add z b = Inr zB"
    "Map (ActivationFunc l) zB = Inr a" "Map (ActivationPrimeFunc l) zB = Inr g"
    and s': "s' = s\<lparr>cells := ((cells s @ [a])[Activations l - 1 := a] @ [g])[Gradient l - 1 := g]\<rparr>"
    by blast
  have cz: "cols zB = cols w"
    using Multiply_shape [OF c(2)] zip_elems_shape [OF c(4) [unfolded Add_def]] by simp
  have ca: "cols a = cols w" "cols g = cols w"
    using Map_shape [OF c(5)] Map_shape [OF c(6)] cz by simp_all
  from before obtain n where n: "\<forall>q \<in> set (Bias l # Weights l # ps). col_at s q = Some n"
    unfolding same_cols_iff by blast
  then have nw: "n = cols w"
    using c(1) by (simp add: col_at_def)
  have old: "col_at s' q = Some n" if "q \<in> set (Bias l # Weights l # ps)" for q
  proof -
    from n that have q: "col_at s q = Some n" by blast
    then have "valid s q" by (rule col_at_valid)
    moreover from that apart have "q \<noteq> Activations l" "q \<noteq> Gradient l" by auto
    ultimately have "deref s' q = deref s q"
      using ForwardPass_frame [OF run] by blast
    with q show ?thesis by (simp add: col_at_def)
  qed
  have "deref s' (Activations l) = (if Activations l = Gradient l then Inr g else Inr a)"
    unfolding s' using caches by (auto simp: deref_def valid_def nth_list_update nth_append)
  then have na: "col_at s' (Activations l) = Some n"
    using ca nw by (simp add: col_at_def)
  have "deref s' (Gradient l) = Inr g"
    unfolding s' using caches by (auto simp: deref_def valid_def nth_list_update nth_append)
  then have ng: "col_at s' (Gradient l) = Some n"
    using ca nw by (simp add: col_at_def)
  from old na ng show ?thesis
    unfolding same_cols_iff by auto
qed

lemma BackwardPass_cols:
  assumes run: "BackwardPass s l target rightLayer = Inr (l', s')"
    and before: "same_cols s [Bias l, Weights l, Activations l, Gradient l]"
  shows "same_cols s' [Bias l', Weights l', Activations l', Gradient l', Delta l']"
proof -
  from BackwardPass_Inr [OF run] obtain d where l': "l' = l\<lparr>Delta := Suc (length (cells s))\<rparr>"
    and s': "s' = s\<lparr>cells := cells s @ [d]\<rparr>"
    and how: "if IsLastLayer l
           then \<exists>a err g. deref s (Activations l) = Inr a \<and> Subtract a target = Inr err \<and>
                  deref s (Gradient l) = Inr g \<and> MultiplyElems err g = Inr d
           else \<exists>dR wR m g. deref s (Delta rightLayer) = Inr dR \<and>
                  deref s (Weights rightLayer) = Inr wR \<and> Multiply dR (T wR) = Inr m \<and>
                  deref s (Gradient l) = Inr g \<and> MultiplyElems m g = Inr d"
    by blast
  from how obtain e g where g: "deref s (Gradient l) = Inr g" "MultiplyElems e g = Inr d"
    by (auto split: if_splits)
  have cd: "cols d = cols g"
    using zip_elems_shape [OF g(2) [unfolded MultiplyElems_def]] by simp
  from before obtain n where n: "\<forall>q \<in> set [Bias l, Weights l, Activations l, Gradient l].
      col_at s q = Some n"
    unfolding same_cols_iff by blast
  then have ng: "n = cols g" using g(1) by (simp add: col_at_def)
  have old: "col_at s' q = Some n" if "q \<in> set [Bias l, Weights l, Activations l, Gradient l]" for q
  proof -
    from n that have q: "col_at s q = Some n" by blast
    then have "valid s q" by (rule col_at_valid)
    then have "deref s' q = deref s q" unfolding s' by (rule deref_append_old)
    with q show ?thesis by (simp add: col_at_def)
  qed
  have "deref s' (Delta l') = Inr d"
    by (simp add: l' s' deref_append_new)
  then have "col_at s' (Delta l') = Some n"
    using cd ng by (simp add: col_at_def)
  with old show ?thesis
    unfolding same_cols_iff by (auto simp: l')
qed

lemma UpdateWeights_cols:
  assumes run: "UpdateWeights s l learningRate leftA = Inr (l', s')"
    and before: "same_cols s [Bias l, Weights l, Activations l, Gradient l, Delta l]"
  shows "same_cols s' [Bias l', Weights l', Activations l', Gradient l', Delta l']"
proof -
  from before obtain n where n: "\<forall>q \<in> set [Bias l, Weights l, Activations l, Gradient l, Delta l].
      col_at s q = Some n"
    unfolding same_cols_iff by blast
  from UpdateWeights_Inr [OF run] obtain d ad w w' b b' where c:
    "deref s (Delta l) = Inr d" "Multiply (T leftA) d = Inr ad"
    "deref s (Weights l) = Inr w" "Subtract w (Scale learningRate ad) = Inr w'"
    "deref (s\<lparr>cells := cells s @ [w']\<rparr>) (Bias l) = Inr b"
    "Subtract b (Scale learningRate d) = Inr b'"
    and l': "l' = l\<lparr>Weights := Suc (length (cells s)), Bias := Suc (Suc (length (cells s)))\<rparr>"
    and s': "s' = s\<lparr>cells := cells s @ [w', b']\<rparr>"
    by blast
  from n have vb: "valid s (Bias l)" by (auto intro: col_at_valid)
  with c(5) have b: "deref s (Bias l) = Inr b" by (simp add: deref_append_old)
  have cw: "cols w' = cols w"
    using zip_elems_shape [OF c(4) [unfolded Subtract_def]] by simp
  have cb: "cols b' = cols b"
    using zip_elems_shape [OF c(6) [unfolded Subtract_def]] by simp
  from n c(3) b have nw: "n = cols w" "n = cols b"
    by (simp_all add: col_at_def)
  have old: "col_at s' q = Some n" if "q \<in> set [Activations l, Gradient l, Delta l]" for q
  proof -
    from n that have q: "col_at s q = Some n" by auto
    then have "valid s q" by (rule col_at_valid)
    then have "deref s' q = deref s q" unfolding s' by (rule deref_append_old)
    with q show ?thesis by (simp add: col_at_def)
  qed
  have "deref s' (Weights l') = Inr w'" "deref s' (Bias l') = Inr b'"
    by (simp_all add: l' s' deref_def valid_def nth_append)
  then have "col_at s' (Weights l') = Some n" "col_at s' (Bias l') = Some n"
    using cw cb nw by (simp_all add: col_at_def)
  with old show ?thesis
    unfolding same_cols_iff by (auto simp: l')
qed

subsection \<open>The order of the passes\<close>

lemma forward_loop_trace:
  "forward_loop s ls idx x = Inr (out, s') \<Longrightarrow>
     trace s' = trace s @ map EvForward [idx..<idx + length ls]"
proof (induction ls arbitrary: s idx x)
  case Nil
  then show ?case by simp
next
  case (Cons l ls)
  from Cons.prems(1) obtain s1 a where
    f: "ForwardPass (emit (EvForward idx) s) l x = Inr s1"
    and rest: "forward_loop s1 ls (Suc idx) a = Inr (out, s')"
    by (auto simp: bindE_eq_Inr)
  have "trace s1 = trace s @ [EvForward idx]"
    using ForwardPass_keeps(1) [OF f] by simp
  moreover have "[idx..<idx + length (l # ls)] = idx # [Suc idx..<Suc idx + length ls]"
    by (subst upt_conv_Cons) simp_all
  ultimately show ?case
    using Cons.IH [OF rest] by (simp only: append_assoc list.map append_Cons append_Nil)
qed

lemma index_Inr: "index xs (int j) = Inr v \<longleftrightarrow> j < length xs \<and> xs ! j = v"
  by (auto simp: index_def)

lemma backward_loop_trace:
  "backward_loop s net tgts tc i k lastL = Inr (net', lastL', s') \<Longrightarrow>
     trace s' = trace s @ map EvBackward (rev [0..<k]) \<and>
     length (Layers net') = length (Layers net) \<and> NumberOfLayers net' = NumberOfLayers net"
proof (induction k arbitrary: s net lastL)
  case 0
  then show ?case by simp
next
  case (Suc k)
  from Suc.prems obtain tgt layer layer' s1 lastL1 where
    b: "BackwardPass (emit (EvBackward k) s) layer tgt lastL = Inr (layer', s1)"
    and rest: "backward_loop s1 (net\<lparr>Layers := (Layers net)[k := layer']\<rparr>) tgts tc i k lastL1
                 = Inr (net', lastL', s')"
    by (auto simp: bindE_eq_Inr Let_def)
  from BackwardPass_Inr [OF b] have "trace s1 = trace s @ [EvBackward k]"
    by auto
  with Suc.IH [OF rest] show ?case by simp
qed

lemma update_loop_trace:
  "update_loop s net lr x j = Inr (net', s') \<Longrightarrow>
     trace s' = trace s @ map EvUpdate [j..<length (Layers net)] \<and>
     length (Layers net') = length (Layers net) \<and> NumberOfLayers net' = NumberOfLayers net"
proof (induction s net lr x j rule: update_loop.induct)
  case (1 s net lr x j)
  show ?case
  proof (cases "j < length (Layers net)")
    case True
    from "1.prems" True obtain layer' s1 a where
      u: "UpdateWeights (emit (EvUpdate j) s) (Layers net ! j) lr x = Inr (layer', s1)"
      and rest: "update_loop s1 (net\<lparr>Layers := (Layers net)[j := layer']\<rparr>) lr a (Suc j)
                   = Inr (net', s')"
      by (subst (asm) update_loop.simps) (auto simp: bindE_eq_Inr Let_def index_Inr)
    from UpdateWeights_Inr [OF u] have t1: "trace s1 = trace s @ [EvUpdate j]"
      by auto
    from "1.IH" [OF True refl rest]
    have "trace s' = trace s1 @ map EvUpdate [Suc j..<length (Layers net)] \<and>
          length (Layers net') = length (Layers net) \<and> NumberOfLayers net' = NumberOfLayers net"
      by simp
    moreover have "[j..<length (Layers net)] = j # [Suc j..<length (Layers net)]"
      using True by (rule upt_conv_Cons)
    ultimately show ?thesis
      using t1 by (simp only: append_assoc list.map append_Cons append_Nil simp_thms)
  next
    case False
    with "1.prems" show ?thesis
      by (subst (asm) update_loop.simps) simp
  qed
qed

lemma train_sample_Inr:
  assumes "train_sample s net xs tgts lr tc ic i lastL = Inr (net3, lastL2, s3)"
  shows "\<exists>row tempInput out s1 net2 s2.
           RawRowView xs i = Inr row \<and> NewDense 1 ic (Some row) = Inr tempInput \<and>
           Predict (emit (EvSample i) s) net tempInput = Inr (out, s1) \<and>
           backward_loop s1 net tgts tc i (nat (NumberOfLayers net)) lastL = Inr (net2, lastL2, s2) \<and>
           update_loop s2 net2 lr tempInput 0 = Inr (net3, s3)"
  using assms by (auto simp: train_sample_def bindE_eq_Inr)

lemma train_sample_trace:
  assumes "train_sample s net xs tgts lr tc ic i lastL = Inr (net', lastL', s')"
  shows "trace s' = trace s @ sample_events (length (Layers net)) (nat (NumberOfLayers net)) i \<and>
         length (Layers net') = length (Layers net) \<and> NumberOfLayers net' = NumberOfLayers net"
proof -
  from train_sample_Inr [OF assms] obtain tempInput out s1 net2 s2 where
    p: "Predict (emit (EvSample i) s) net tempInput = Inr (out, s1)"
    and b: "backward_loop s1 net tgts tc i (nat (NumberOfLayers net)) lastL = Inr (net2, lastL', s2)"
    and u: "update_loop s2 net2 lr tempInput 0 = Inr (net', s')"
    by blast
  from p have t1: "trace s1 = trace s @ EvSample i # map EvForward [0..<length (Layers net)]"
    using forward_loop_trace [of "emit (EvSample i) s" "Layers net" 0 tempInput out s1]
    by (simp add: Predict_def)
  note t2 = backward_loop_trace [OF b]
  note t3 = update_loop_trace [OF u]
  from t1 t2 t3 show ?thesis
    by (simp add: sample_events_def)
qed

lemma sample_loop_trace:
  "sample_loop s net xs tgts lr tc n ic i lastL = Inr (net', lastL', s') \<Longrightarrow>
     trace s' = trace s @ concat (map (sample_events (length (Layers net))
                                        (nat (NumberOfLayers net))) [i..<n]) \<and>
     length (Layers net') = length (Layers net) \<and> NumberOfLayers net' = NumberOfLayers net"
proof (induction s net xs tgts lr tc n ic i lastL rule: sample_loop.induct)
  case (1 s net xs tgts lr tc n ic i lastL)
  show ?case
  proof (cases "i < n")
    case True
    from "1.prems" True obtain net1 lastL1 s1 where
      t: "train_sample s net xs tgts lr tc ic i lastL = Inr (net1, lastL1, s1)"
      and rest: "sample_loop s1 net1 xs tgts lr tc n ic (Suc i) lastL1 = Inr (net', lastL', s')"
      by (subst (asm) sample_loop.simps) (auto simp: bindE_eq_Inr)
    note a = train_sample_trace [OF t]
    from "1.IH" [OF True rest]
    have b: "trace s' = trace s1 @ concat (map (sample_events (length (Layers net1))
                                        (nat (NumberOfLayers net1))) [Suc i..<n]) \<and>
     length (Layers net') = length (Layers net1) \<and> NumberOfLayers net' = NumberOfLayers net1"
      by simp
    have "[i..<n] = i # [Suc i..<n]" using True by (rule upt_conv_Cons)
    with a b show ?thesis by simp
  next
    case False
    with "1.prems" show ?thesis
      by (subst (asm) sample_loop.simps) simp
  qed
qed

lemma epoch_loop_trace:
  "epoch_loop s net xs tgts lr epochs lastL = Inr (net', lastL', s') \<Longrightarrow>
     trace s' = trace s @ schedule (length (Layers net)) (nat (NumberOfLayers net)) (rows xs) epochs \<and>
     length (Layers net') = length (Layers net) \<and> NumberOfLayers net' = NumberOfLayers net"
proof (induction s net xs tgts lr epochs lastL rule: epoch_loop.induct)
  case (1 s net xs tgts lr epochs lastL)
  show ?case
  proof (cases "epochs > 0")
    case True
    from "1.prems" True obtain net1 lastL1 s1 where
      t: "sample_loop s net xs tgts lr (cols tgts) (rows xs) (cols xs) 0 lastL
            = Inr (net1, lastL1, s1)"
      and rest: "epoch_loop s1 net1 xs tgts lr (epochs - 1) lastL1 = Inr (net', lastL', s')"
      by (subst (asm) epoch_loop.simps) (auto simp: bindE_eq_Inr Let_def)
    note a = sample_loop_trace [OF t]
    from "1.IH" [OF True refl refl refl rest]
    have b: "trace s' = trace s1 @ schedule (length (Layers net1)) (nat (NumberOfLayers net1))
                                     (rows xs) (epochs - 1) \<and>
       length (Layers net') = length (Layers net1) \<and> NumberOfLayers net' = NumberOfLayers net1"
      by simp
    have "nat epochs = Suc (nat (epochs - 1))" using True by simp
    with a b show ?thesis by (simp add: schedule_def)
  next
    case False
    with "1.prems" show ?thesis
      by (subst (asm) epoch_loop.simps) (simp add: schedule_def)
  qed
qed

lemma Train_trace:
  assumes "Train s net xs tgts lr epochs = Inr (net', s')"
  shows "trace s' = trace s @ schedule (length (Layers net)) (nat (NumberOfLayers net)) (rows xs) epochs"
  using assms epoch_loop_trace
  by (fastforce simp: Train_def bindE_eq_Inr)

lemma deref_extend:
  "cells s' = cells s @ extra \<Longrightarrow> valid s p \<Longrightarrow> deref s' p = deref s p"
  by (auto simp: deref_def valid_def nth_append)

lemma valid_extend:
  "cells s' = cells s @ extra \<Longrightarrow> valid s p \<Longrightarrow> valid s' p"
  by (auto simp: valid_def)

lemma Delta_update_self: "\<exists>p. l = l\<lparr>Delta := p\<rparr>"
  by (rule exI [of _ "Delta l"]) simp

lemma backward_loop_chain:
  "backward_loop s net tgts tc i k lastL = Inr (net', lastL', s') \<Longrightarrow>
   \<forall>j<length (Layers net). valid s (Weights (Layers net ! j)) \<and>
                            valid s (Gradient (Layers net ! j)) \<Longrightarrow>
   length (Layers net') = length (Layers net) \<and>
   (\<exists>extra. cells s' = cells s @ extra) \<and>
   (\<forall>j<length (Layers net). \<exists>p. Layers net' ! j = (Layers net ! j)\<lparr>Delta := p\<rparr>) \<and>
   (\<forall>j. k \<le> j \<longrightarrow> j < length (Layers net) \<longrightarrow> Layers net' ! j = Layers net ! j) \<and>
   (\<forall>j<k. \<not> IsLastLayer (Layers net ! j) \<longrightarrow>
      (\<exists>dR wR m g d.
         deref s' (Delta (if Suc j = k then lastL else Layers net' ! Suc j)) = Inr dR \<and>
         deref s (Weights (if Suc j = k then lastL else Layers net ! Suc j)) = Inr wR \<and>
         Multiply dR (T wR) = Inr m \<and>
         deref s (Gradient (Layers net ! j)) = Inr g \<and>
         MultiplyElems m g = Inr d \<and>
         deref s' (Delta (Layers net' ! j)) = Inr d))"
proof (induction k arbitrary: s net lastL)
  case 0
  then show ?case using Delta_update_self by auto
next
  case (Suc k)
  let ?n = "length (Layers net)"
  from Suc.prems(1) obtain tgt layer' s1 lastL1 where
    klen: "k < ?n"
    and b: "BackwardPass (emit (EvBackward k) s) (Layers net ! k) tgt lastL = Inr (layer', s1)"
    and l1: "index (Layers (net\<lparr>Layers := (Layers net)[k := layer']\<rparr>)) (int k) = Inr lastL1"
    and rest: "backward_loop s1 (net\<lparr>Layers := (Layers net)[k := layer']\<rparr>) tgts tc i k lastL1
                 = Inr (net', lastL', s')"
    by (auto simp: bindE_eq_Inr Let_def index_Inr)
  define net1 where "net1 = net\<lparr>Layers := (Layers net)[k := layer']\<rparr>"
  have last1: "lastL1 = layer'"
    using l1 klen by (simp add: index_Inr)
  from BackwardPass_Inr [OF b] obtain d0 where
    layer': "layer' = (Layers net ! k)\<lparr>Delta := Suc (length (cells s))\<rparr>"
    and s1: "cells s1 = cells s @ [d0]"
    and how: "if IsLastLayer (Layers net ! k)
           then \<exists>a err g. deref s (Activations (Layers net ! k)) = Inr a \<and>
                  Subtract a tgt = Inr err \<and>
                  deref s (Gradient (Layers net ! k)) = Inr g \<and> MultiplyElems err g = Inr d0
           else \<exists>dR wR m g. deref s (Delta lastL) = Inr dR \<and>
                  deref s (Weights lastL) = Inr wR \<and> Multiply dR (T wR) = Inr m \<and>
                  deref s (Gradient (Layers net ! k)) = Inr g \<and> MultiplyElems m g = Inr d0"
    by (auto cong: if_cong)
  have nth1: "Layers net1 ! j = (if j = k then layer' else Layers net ! j)" if "j < ?n" for j
    using that by (simp add: net1_def nth_list_update)
  have len1: "length (Layers net1) = ?n"
    by (simp add: net1_def)
  have V1: "\<forall>j<length (Layers net1). valid s1 (Weights (Layers net1 ! j)) \<and>
                            valid s1 (Gradient (Layers net1 ! j))"
    using Suc.prems(2) valid_extend [OF s1] by (auto simp: len1 nth1 layer')
  from Suc.IH [OF rest [folded net1_def] V1] obtain extra where
    L1: "length (Layers net') = ?n"
    and E1: "cells s' = cells s1 @ extra"
    and P1: "\<forall>j<?n. \<exists>p. Layers net' ! j = (Layers net1 ! j)\<lparr>Delta := p\<rparr>"
    and U1: "\<forall>j. k \<le> j \<longrightarrow> j < ?n \<longrightarrow> Layers net' ! j = Layers net1 ! j"
    and C1: "\<forall>j<k. \<not> IsLastLayer (Layers net1 ! j) \<longrightarrow>
      (\<exists>dR wR m g d.
         deref s' (Delta (if Suc j = k then lastL1 else Layers net' ! Suc j)) = Inr dR \<and>
         deref s1 (Weights (if Suc j = k then lastL1 else Layers net1 ! Suc j)) = Inr wR \<and>
         Multiply dR (T wR) = Inr m \<and>
         deref s1 (Gradient (Layers net1 ! j)) = Inr g \<and>
         MultiplyElems m g = Inr d \<and>
         deref s' (Delta (Layers net' ! j)) = Inr d)"
    unfolding len1 by blast
  have E: "cells s' = cells s @ (d0 # extra)"
    using E1 s1 by simp
  have atk: "Layers net' ! k = layer'"
    using U1 klen nth1 by simp
  have P: "\<forall>j<?n. \<exists>p. Layers net' ! j = (Layers net ! j)\<lparr>Delta := p\<rparr>"
  proof (intro allI impI)
    fix j assume j: "j < ?n"
    show "\<exists>p. Layers net' ! j = (Layers net ! j)\<lparr>Delta := p\<rparr>"
    proof (cases "j = k")
      case True
      then show ?thesis using atk layer' by auto
    next
      case False
      from P1 j obtain p where "Layers net' ! j = (Layers net1 ! j)\<lparr>Delta := p\<rparr>" by blast
      with nth1 [OF j] False show ?thesis by auto
    qed
  qed
  have U: "\<forall>j. Suc k \<le> j \<longrightarrow> j < ?n \<longrightarrow> Layers net' ! j = Layers net ! j"
    using U1 nth1 by simp
  have C: "\<exists>dR wR m g d.
         deref s' (Delta (if Suc j = Suc k then lastL else Layers net' ! Suc j)) = Inr dR \<and>
         deref s (Weights (if Suc j = Suc k then lastL else Layers net ! Suc j)) = Inr wR \<and>
         Multiply dR (T wR) = Inr m \<and>
         deref s (Gradient (Layers net ! j)) = Inr g \<and>
         MultiplyElems m g = Inr d \<and>
         deref s' (Delta (Layers net' ! j)) = Inr d"
    if j: "j < Suc k" and nl: "\<not> IsLastLayer (Layers net ! j)" for j
  proof (cases "j = k")
    case True
    from how nl True obtain dR wR m g where h:
      "deref s (Delta lastL) = Inr dR" "deref s (Weights lastL) = Inr wR"
      "Multiply dR (T wR) = Inr m" "deref s (Gradient (Layers net ! k)) = Inr g"
      "MultiplyElems m g = Inr d0"
      by auto
    have "deref s' (Delta lastL) = Inr dR"
      using deref_extend [OF E deref_Inr_valid [OF h(1)]] h(1) by simp
    moreover have "deref s' (Delta (Layers net' ! k)) = Inr d0"
      using E by (simp add: atk layer' deref_def valid_def nth_append)
    ultimately show ?thesis
      using h True by auto
  next
    case False
    with j have jk: "j < k" by simp
    then have jn: "j < ?n" "Suc j < ?n" using klen by simp_all
    have same: "Layers net1 ! j = Layers net ! j"
      using nth1 [OF jn(1)] jk by simp
    from C1 jk nl same obtain dR wR m g d where h:
      "deref s' (Delta (if Suc j = k then lastL1 else Layers net' ! Suc j)) = Inr dR"
      "deref s1 (Weights (if Suc j = k then lastL1 else Layers net1 ! Suc j)) = Inr wR"
      "Multiply dR (T wR) = Inr m"
      "deref s1 (Gradient (Layers net ! j)) = Inr g"
      "MultiplyElems m g = Inr d"
      "deref s' (Delta (Layers net' ! j)) = Inr d"
      by (metis (no_types, lifting))
    have r: "(if Suc j = k then lastL1 else Layers net' ! Suc j) = Layers net' ! Suc j"
      using atk last1 by auto
    have "Weights (if Suc j = k then lastL1 else Layers net1 ! Suc j) = Weights (Layers net ! Suc j)"
      using nth1 [OF jn(2)] last1 layer' by auto
    then have w: "deref s1 (Weights (Layers net ! Suc j)) = Inr wR"
      using h(2) by simp
    have vw: "valid s (Weights (Layers net ! Suc j))" and vg: "valid s (Gradient (Layers net ! j))"
      using Suc.prems(2) jn by blast+
    have "deref s (Weights (Layers net ! Suc j)) = Inr wR"
      using deref_extend [OF s1 vw] w by simp
    moreover have "deref s (Gradient (Layers net ! j)) = Inr g"
      using deref_extend [OF s1 vg] h(4) by simp
    moreover have "deref s' (Delta (Layers net' ! Suc j)) = Inr dR"
      using h(1) r by simp
    ultimately show ?thesis
      using h(3,5,6) jk by auto
  qed
  from L1 E P U C show ?case by blast
qed

lemma succeeded_Inr: "succeeded r \<longleftrightarrow> (\<exists>v. r = Inr v)"
  by (cases r) (simp_all add: succeeded_def)

lemma owned_emit [simp]: "owned (emit e s) ls = owned s ls"
  by (simp add: owned_def)

subsection \<open>The caches stay separate\<close>

text \<open>
  \<open>owned\<close> is an invariant of the program: \<open>NewNetwork\<close> establishes it (lemma
  \<open>NewNetwork_wellformed\<close>), \<open>Predict\<close> keeps it (lemma \<open>Predict_keeps\<close>), and so do the
  backward pass and the weight update, which store their results at new addresses, and
  hence \<open>Train\<close>.
\<close>

lemma caches_update:
  assumes "j < length ls" "Activations l' = Activations (ls ! j)" "Gradient l' = Gradient (ls ! j)"
  shows "caches (ls[j := l']) = caches ls"
proof -
  have "map (\<lambda>l. [Activations l, Gradient l]) (ls[j := l'])
          = (map (\<lambda>l. [Activations l, Gradient l]) ls)[j := [Activations l', Gradient l']]"
    by (rule map_update)
  also have "\<dots> = map (\<lambda>l. [Activations l, Gradient l]) ls"
    using assms by (simp add: list_update_same_conv)
  finally show ?thesis by (simp add: caches_def)
qed

lemma params_update:
  "set (params (ls[j := l'])) \<subseteq> set (params ls) \<union> {Weights l', Bias l', Delta l'}"
proof -
  have "set (ls[j := l']) \<subseteq> insert l' (set ls)"
    by (rule set_update_subset_insert)
  then show ?thesis
    by (auto simp: params_def)
qed

lemma owned_replace:
  assumes o: "owned s ls" and j: "j < length ls"
    and same: "Activations l' = Activations (ls ! j)" "Gradient l' = Gradient (ls ! j)"
    and ext: "cells s' = cells s @ extra"
    and new: "\<forall>p \<in> {Weights l', Bias l', Delta l'}.
                p \<in> set (params ls) \<or> (\<not> valid s p \<and> valid s' p)"
  shows "owned s' (ls[j := l'])"
proof -
  have c: "caches (ls[j := l']) = caches ls"
    using j same by (rule caches_update)
  have v: "valid s' p" if "valid s p" for p
    using ext that by (rule valid_extend)
  have d: "p \<notin> set (caches ls) \<and> valid s' p" if "p \<in> set (params (ls[j := l']))" for p
  proof -
    from that params_update [of ls j l']
    have "p \<in> set (params ls) \<or> p \<in> {Weights l', Bias l', Delta l'}" by blast
    then show ?thesis
    proof
      assume "p \<in> set (params ls)"
      with o v show ?thesis by (auto simp: owned_def)
    next
      assume "p \<in> {Weights l', Bias l', Delta l'}"
      with new have "p \<in> set (params ls) \<or> (\<not> valid s p \<and> valid s' p)" by blast
      with o v show ?thesis by (auto simp: owned_def)
    qed
  qed
  from o v d show ?thesis
    unfolding owned_def c by auto
qed

lemma BackwardPass_owned:
  assumes "BackwardPass s (ls ! j) target rightLayer = Inr (l', s')" "owned s ls" "j < length ls"
  shows "owned s' (ls[j := l'])"
proof -
  from BackwardPass_Inr [OF assms(1)] obtain d where
    l': "l' = (ls ! j)\<lparr>Delta := Suc (length (cells s))\<rparr>"
    and s': "s' = s\<lparr>cells := cells s @ [d]\<rparr>"
    by blast
  have mem: "Weights (ls ! j) \<in> set (params ls)" "Bias (ls ! j) \<in> set (params ls)"
    using assms(3) by (auto simp: params_def intro!: bexI [of _ "ls ! j"])
  show ?thesis
    using assms(2,3)
  proof (rule owned_replace)
    show "cells s' = cells s @ [d]" by (simp add: s')
    show "\<forall>p \<in> {Weights l', Bias l', Delta l'}.
                p \<in> set (params ls) \<or> (\<not> valid s p \<and> valid s' p)"
      using mem by (simp add: l' s' valid_def)
  qed (simp_all add: l')
qed

lemma UpdateWeights_owned:
  assumes "UpdateWeights s (ls ! j) lr x = Inr (l', s')" "owned s ls" "j < length ls"
  shows "owned s' (ls[j := l'])"
proof -
  from UpdateWeights_Inr [OF assms(1)] obtain w' b' where
    l': "l' = (ls ! j)\<lparr>Weights := Suc (length (cells s)), Bias := Suc (Suc (length (cells s)))\<rparr>"
    and s': "s' = s\<lparr>cells := cells s @ [w', b']\<rparr>"
    by blast
  have mem: "Delta (ls ! j) \<in> set (params ls)"
    using assms(3) by (auto simp: params_def intro!: bexI [of _ "ls ! j"])
  show ?thesis
    using assms(2,3)
  proof (rule owned_replace)
    show "cells s' = cells s @ [w', b']" by (simp add: s')
    show "\<forall>p \<in> {Weights l', Bias l', Delta l'}.
                p \<in> set (params ls) \<or> (\<not> valid s p \<and> valid s' p)"
      using mem by (simp add: l' s' valid_def)
  qed (simp_all add: l')
qed

lemma backward_loop_owned:
  "backward_loop s net tgts tc i k lastL = Inr (net', lastL', s') \<Longrightarrow> owned s (Layers net) \<Longrightarrow>
     owned s' (Layers net')"
proof (induction k arbitrary: s net lastL)
  case 0
  then show ?case by simp
next
  case (Suc k)
  from Suc.prems(1) obtain tgt layer' s1 lastL1 where
    klen: "k < length (Layers net)"
    and b: "BackwardPass (emit (EvBackward k) s) (Layers net ! k) tgt lastL = Inr (layer', s1)"
    and rest: "backward_loop s1 (net\<lparr>Layers := (Layers net)[k := layer']\<rparr>) tgts tc i k lastL1
                 = Inr (net', lastL', s')"
    by (auto simp: bindE_eq_Inr Let_def index_Inr)
  have "owned s1 ((Layers net)[k := layer'])"
    using b _ klen by (rule BackwardPass_owned) (simp add: Suc.prems(2))
  then show ?case
    using Suc.IH [OF rest] by simp
qed

lemma update_loop_owned:
  "update_loop s net lr x j = Inr (net', s') \<Longrightarrow> owned s (Layers net) \<Longrightarrow>
     owned s' (Layers net')"
proof (induction s net lr x j rule: update_loop.induct)
  case (1 s net lr x j)
  show ?case
  proof (cases "j < length (Layers net)")
    case True
    from "1.prems"(1) True obtain layer' s1 a where
      u: "UpdateWeights (emit (EvUpdate j) s) (Layers net ! j) lr x = Inr (layer', s1)"
      and rest: "update_loop s1 (net\<lparr>Layers := (Layers net)[j := layer']\<rparr>) lr a (Suc j)
                   = Inr (net', s')"
      by (subst (asm) update_loop.simps) (auto simp: bindE_eq_Inr Let_def index_Inr)
    have "owned s1 ((Layers net)[j := layer'])"
      using u _ True by (rule UpdateWeights_owned) (simp add: "1.prems"(2))
    then show ?thesis
      using "1.IH" [OF True refl rest] by simp
  next
    case False
    with "1.prems" show ?thesis
      by (subst (asm) update_loop.simps) simp
  qed
qed

lemma train_sample_owned:
  assumes "train_sample s net xs tgts lr tc ic i lastL = Inr (net', lastL', s')"
    "owned s (Layers net)"
  shows "owned s' (Layers net')"
proof -
  from train_sample_Inr [OF assms(1)] obtain tempInput out s1 net2 s2 where
    p: "Predict (emit (EvSample i) s) net tempInput = Inr (out, s1)"
    and b: "backward_loop s1 net tgts tc i (nat (NumberOfLayers net)) lastL = Inr (net2, lastL', s2)"
    and u: "update_loop s2 net2 lr tempInput 0 = Inr (net', s')"
    by blast
  have "owned s1 (Layers net)"
    using p by (rule Predict_keeps(1)) (simp add: assms(2))
  then have "owned s2 (Layers net2)"
    using b by (rule backward_loop_owned [rotated])
  then show ?thesis
    using u by (rule update_loop_owned [rotated])
qed

lemma sample_loop_owned:
  "sample_loop s net xs tgts lr tc n ic i lastL = Inr (net', lastL', s') \<Longrightarrow>
     owned s (Layers net) \<Longrightarrow> owned s' (Layers net')"
proof (induction s net xs tgts lr tc n ic i lastL rule: sample_loop.induct)
  case (1 s net xs tgts lr tc n ic i lastL)
  show ?case
  proof (cases "i < n")
    case True
    from "1.prems"(1) True obtain net1 lastL1 s1 where
      t: "train_sample s net xs tgts lr tc ic i lastL = Inr (net1, lastL1, s1)"
      and rest: "sample_loop s1 net1 xs tgts lr tc n ic (Suc i) lastL1 = Inr (net', lastL', s')"
      by (subst (asm) sample_loop.simps) (auto simp: bindE_eq_Inr)
    from t "1.prems"(2) have "owned s1 (Layers net1)" by (rule train_sample_owned)
    with "1.IH" [OF True rest] show ?thesis by simp
  next
    case False
    with "1.prems" show ?thesis
      by (subst (asm) sample_loop.simps) simp
  qed
qed

lemma epoch_loop_owned:
  "epoch_loop s net xs tgts lr epochs lastL = Inr (net', lastL', s') \<Longrightarrow>
     owned s (Layers net) \<Longrightarrow> owned s' (Layers net')"
proof (induction s net xs tgts lr epochs lastL rule: epoch_loop.induct)
  case (1 s net xs tgts lr epochs lastL)
  show ?case
  proof (cases "epochs > 0")
    case True
    from "1.prems"(1) True obtain net1 lastL1 s1 where
      t: "sample_loop s net xs tgts lr (cols tgts) (rows xs) (cols xs) 0 lastL
            = Inr (net1, lastL1, s1)"
      and rest: "epoch_loop s1 net1 xs tgts lr (epochs - 1) lastL1 = Inr (net', lastL', s')"
      by (subst (asm) epoch_loop.simps) (auto simp: bindE_eq_Inr Let_def)
    from t "1.prems"(2) have "owned s1 (Layers net1)" by (rule sample_loop_owned)
    with "1.IH" [OF True refl refl refl rest] show ?thesis by simp
  next
    case False
    with "1.prems" show ?thesis
      by (subst (asm) epoch_loop.simps) simp
  qed
qed

lemma Train_keeps_owned:
  assumes "Train s net xs tgts lr epochs = Inr (net', s')" "owned s (Layers net)"
  shows "owned s' (Layers net')"
  using assms epoch_loop_owned
  by (fastforce simp: Train_def bindE_eq_Inr)

section \<open>The claims\<close>

text \<open>
  C1. For every layer and every one-row input whose width is the row count of the layer's
  weights, \<open>ForwardPass\<close> computes \<open>z = input \<cdot> weights\<close>, adds the bias row, and leaves
  in the cell of the layer's \<open>Activations\<close> pointer the element-wise activation of the
  biased sum and in the cell of its \<open>Gradient\<close> pointer the element-wise derivative of the
  same biased sum. Both caches are overwritten in place: the pointers stay, their cells
  change, and no other cell that was in use changes. The layer is one as the constructor
  makes it: its bias is a row as wide as the weights, its two caches are allocated and are
  two matrices, its functions are set.
\<close>

theorem ForwardPass_computes:
  assumes W: "deref s (Weights layer) = Inr w"
    and B: "deref s (Bias layer) = Inr b"
    and fn: "ActivationFunc layer = Some f" "ActivationPrimeFunc layer = Some f'"
    and caches: "valid s (Activations layer)" "valid s (Gradient layer)"
      "Activations layer \<noteq> Gradient layer"
    and shape: "rows input = 1" "cols input = rows w" "rows b = 1" "cols b = cols w"
  shows "\<exists>s' z zB a g.
           Multiply input w = Inr z \<and> Add z b = Inr zB \<and>
           Map (Some f) zB = Inr a \<and> Map (Some f') zB = Inr g \<and>
           ForwardPass s layer input = Inr s' \<and>
           deref s' (Activations layer) = Inr a \<and> deref s' (Gradient layer) = Inr g \<and>
           rows a = 1 \<and> cols a = cols w \<and> rows g = 1 \<and> cols g = cols w \<and>
           (\<forall>j<cols w. elem zB 0 j = dot input w 0 j + elem b 0 j \<and>
                        elem a 0 j = f 0 j (elem zB 0 j) \<and>
                        elem g 0 j = f' 0 j (elem zB 0 j)) \<and>
           (\<forall>p. valid s p \<and> p \<noteq> Activations layer \<and> p \<noteq> Gradient layer
                  \<longrightarrow> deref s' p = deref s p)"
proof -
  define z where "z = tabulate (rows input) (cols w) (dot input w)"
  define zB where "zB = tabulate (rows z) (cols z) (\<lambda>i j. elem z i j + elem b i j)"
  define a where "a = tabulate (rows zB) (cols zB) (\<lambda>i j. f i j (elem zB i j))"
  define g where "g = tabulate (rows zB) (cols zB) (\<lambda>i j. f' i j (elem zB i j))"
  define s' where
    "s' = s\<lparr>cells := ((cells s @ [a])[Activations layer - 1 := a] @ [g])[Gradient layer - 1 := g]\<rparr>"
  have mz: "Multiply input w = Inr z"
    using shape by (simp add: Multiply_def z_def)
  have az: "Add z b = Inr zB"
    using shape by (simp add: Add_def zip_elems_def z_def zB_def)
  have ma: "Map (Some f) zB = Inr a" and mg: "Map (Some f') zB = Inr g"
    by (simp_all add: Map_def a_def g_def)
  have run: "ForwardPass s layer input = Inr s'"
    unfolding s'_def
    by (rule ForwardPass_succeeds [OF W mz B az]) (simp_all add: fn ma mg caches)
  have da: "deref s' (Activations layer) = Inr a"
    using caches by (simp add: s'_def deref_forward_cells)
  have dg: "deref s' (Gradient layer) = Inr g"
    using caches by (simp add: s'_def deref_forward_cells)
  have dims: "rows a = 1" "cols a = cols w" "rows g = 1" "cols g = cols w"
    using shape by (simp_all add: a_def g_def zB_def z_def)
  have elems: "\<forall>j<cols w. elem zB 0 j = dot input w 0 j + elem b 0 j \<and>
                        elem a 0 j = f 0 j (elem zB 0 j) \<and>
                        elem g 0 j = f' 0 j (elem zB 0 j)"
    using shape by (simp add: a_def g_def zB_def z_def)
  have frame: "\<forall>p. valid s p \<and> p \<noteq> Activations layer \<and> p \<noteq> Gradient layer
                  \<longrightarrow> deref s' p = deref s p"
    using caches by (simp add: s'_def deref_forward_cells)
  from mz az ma mg run da dg dims elems frame show ?thesis by blast
qed

theorem ForwardPass_computes_witness:
  "\<exists>s' z zB a g.
     Multiply fx_input \<lparr>rows = 2, cols = 2, data = [1, 2, 3, 4]\<rparr> = Inr z \<and>
     Add z \<lparr>rows = 1, cols = 2, data = [10, 20]\<rparr> = Inr zB \<and>
     Map (Some lin) zB = Inr a \<and> Map (Some one) zB = Inr g \<and>
     ForwardPass fx_state fx_layer fx_input = Inr s' \<and>
     deref s' (Activations fx_layer) = Inr a \<and> deref s' (Gradient fx_layer) = Inr g \<and>
     rows a = 1 \<and> cols a = cols \<lparr>rows = 2, cols = 2, data = [1, 2, 3, 4::int]\<rparr> \<and>
     rows g = 1 \<and> cols g = cols \<lparr>rows = 2, cols = 2, data = [1, 2, 3, 4::int]\<rparr> \<and>
     (\<forall>j<cols \<lparr>rows = 2, cols = 2, data = [1, 2, 3, 4::int]\<rparr>.
        elem zB 0 j = dot fx_input \<lparr>rows = 2, cols = 2, data = [1, 2, 3, 4]\<rparr> 0 j
                        + elem \<lparr>rows = 1, cols = 2, data = [10, 20]\<rparr> 0 j \<and>
        elem a 0 j = lin 0 j (elem zB 0 j) \<and>
        elem g 0 j = one 0 j (elem zB 0 j)) \<and>
     (\<forall>p. valid fx_state p \<and> p \<noteq> Activations fx_layer \<and> p \<noteq> Gradient fx_layer
            \<longrightarrow> deref s' p = deref fx_state p)"
  by (rule ForwardPass_computes)
     (simp_all add: fx_state_def fx_layer_def fx_input_def deref_def valid_def)


text \<open>
  C2. \<open>BackwardPass\<close> replaces the layer's \<open>Delta\<close> by a new matrix and changes nothing
  else. For the output layer the new delta is \<open>(activations - target)\<close> multiplied
  element-wise by the gradient. For any other layer it is
  \<open>rightLayer.delta \<cdot> rightLayer.weights\<^sup>T\<close> multiplied element-wise by the layer's own
  gradient, and the call gives the same result whatever the target is. The shapes are
  those under which the matrix helpers do not fail.
\<close>

theorem BackwardPass_computes:
  assumes G: "deref s (Gradient layer) = Inr g"
  shows "(IsLastLayer layer \<and> deref s (Activations layer) = Inr a \<and>
            rows target = rows a \<and> cols target = cols a \<and> rows g = rows a \<and> cols g = cols a \<longrightarrow>
          (\<exists>err d s'. Subtract a target = Inr err \<and> MultiplyElems err g = Inr d \<and>
             BackwardPass s layer target rightLayer = Inr (layer\<lparr>Delta := Suc (length (cells s))\<rparr>, s') \<and>
             deref s' (Suc (length (cells s))) = Inr d \<and>
             rows d = rows a \<and> cols d = cols a \<and>
             (\<forall>i<rows a. \<forall>j<cols a. elem d i j = (elem a i j - elem target i j) * elem g i j) \<and>
             (\<forall>p. valid s p \<longrightarrow> deref s' p = deref s p))) \<and>
         (\<not> IsLastLayer layer \<and> deref s (Delta rightLayer) = Inr dR \<and>
            deref s (Weights rightLayer) = Inr wR \<and>
            cols dR = cols wR \<and> rows g = rows dR \<and> cols g = rows wR \<longrightarrow>
          (\<exists>m d s'. Multiply dR (T wR) = Inr m \<and> MultiplyElems m g = Inr d \<and>
             BackwardPass s layer target rightLayer = Inr (layer\<lparr>Delta := Suc (length (cells s))\<rparr>, s') \<and>
             deref s' (Suc (length (cells s))) = Inr d \<and>
             rows d = rows g \<and> cols d = cols g \<and>
             (\<forall>i<rows g. \<forall>j<cols g.
                elem d i j
                  = foldl (+) 0 (map (\<lambda>k. elem dR i k * elem wR j k) [0..<cols wR]) * elem g i j) \<and>
             (\<forall>p. valid s p \<longrightarrow> deref s' p = deref s p) \<and>
             (\<forall>target'. BackwardPass s layer target' rightLayer
                           = BackwardPass s layer target rightLayer)))"
proof (intro conjI impI)
  assume h: "IsLastLayer layer \<and> deref s (Activations layer) = Inr a \<and>
            rows target = rows a \<and> cols target = cols a \<and> rows g = rows a \<and> cols g = cols a"
  define err where "err = tabulate (rows a) (cols a) (\<lambda>i j. elem a i j - elem target i j)"
  define d where "d = tabulate (rows err) (cols err) (\<lambda>i j. elem err i j * elem g i j)"
  define s' where "s' = s\<lparr>cells := cells s @ [d]\<rparr>"
  have sub: "Subtract a target = Inr err"
    using h by (simp add: Subtract_def zip_elems_def err_def)
  have mul: "MultiplyElems err g = Inr d"
    using h by (simp add: MultiplyElems_def zip_elems_def err_def d_def)
  have run: "BackwardPass s layer target rightLayer = Inr (layer\<lparr>Delta := Suc (length (cells s))\<rparr>, s')"
    unfolding s'_def using h sub G mul by (intro BackwardPass_last) simp_all
  have new: "deref s' (Suc (length (cells s))) = Inr d"
    by (simp add: s'_def deref_append_new)
  have dims: "rows d = rows a" "cols d = cols a"
    by (simp_all add: d_def err_def)
  have elems: "\<forall>i<rows a. \<forall>j<cols a. elem d i j = (elem a i j - elem target i j) * elem g i j"
    by (simp add: d_def err_def)
  have frame: "\<forall>p. valid s p \<longrightarrow> deref s' p = deref s p"
    by (simp add: s'_def deref_append_old)
  from sub mul run new dims elems frame
  show "\<exists>err d s'. Subtract a target = Inr err \<and> MultiplyElems err g = Inr d \<and>
             BackwardPass s layer target rightLayer = Inr (layer\<lparr>Delta := Suc (length (cells s))\<rparr>, s') \<and>
             deref s' (Suc (length (cells s))) = Inr d \<and>
             rows d = rows a \<and> cols d = cols a \<and>
             (\<forall>i<rows a. \<forall>j<cols a. elem d i j = (elem a i j - elem target i j) * elem g i j) \<and>
             (\<forall>p. valid s p \<longrightarrow> deref s' p = deref s p)"
    by blast
next
  assume h: "\<not> IsLastLayer layer \<and> deref s (Delta rightLayer) = Inr dR \<and>
            deref s (Weights rightLayer) = Inr wR \<and>
            cols dR = cols wR \<and> rows g = rows dR \<and> cols g = rows wR"
  define m where "m = tabulate (rows dR) (cols (T wR)) (dot dR (T wR))"
  define d where "d = tabulate (rows m) (cols m) (\<lambda>i j. elem m i j * elem g i j)"
  define s' where "s' = s\<lparr>cells := cells s @ [d]\<rparr>"
  have mm: "Multiply dR (T wR) = Inr m"
    using h by (simp add: Multiply_def m_def)
  have mul: "MultiplyElems m g = Inr d"
    using h by (simp add: MultiplyElems_def zip_elems_def m_def d_def)
  have run: "BackwardPass s layer target rightLayer = Inr (layer\<lparr>Delta := Suc (length (cells s))\<rparr>, s')"
    unfolding s'_def using h mm G mul by (intro BackwardPass_inner) simp_all
  have new: "deref s' (Suc (length (cells s))) = Inr d"
    by (simp add: s'_def deref_append_new)
  have dims: "rows d = rows g" "cols d = cols g"
    using h by (simp_all add: d_def m_def)
  have elems: "\<forall>i<rows g. \<forall>j<cols g.
                elem d i j
                  = foldl (+) 0 (map (\<lambda>k. elem dR i k * elem wR j k) [0..<cols wR]) * elem g i j"
    using h by (simp add: d_def m_def dot_T_right)
  have frame: "\<forall>p. valid s p \<longrightarrow> deref s' p = deref s p"
    by (simp add: s'_def deref_append_old)
  have unused: "\<forall>target'. BackwardPass s layer target' rightLayer
                           = BackwardPass s layer target rightLayer"
    using h by (simp add: BackwardPass_def)
  from mm mul run new dims elems frame unused
  show "\<exists>m d s'. Multiply dR (T wR) = Inr m \<and> MultiplyElems m g = Inr d \<and>
             BackwardPass s layer target rightLayer = Inr (layer\<lparr>Delta := Suc (length (cells s))\<rparr>, s') \<and>
             deref s' (Suc (length (cells s))) = Inr d \<and>
             rows d = rows g \<and> cols d = cols g \<and>
             (\<forall>i<rows g. \<forall>j<cols g.
                elem d i j
                  = foldl (+) 0 (map (\<lambda>k. elem dR i k * elem wR j k) [0..<cols wR]) * elem g i j) \<and>
             (\<forall>p. valid s p \<longrightarrow> deref s' p = deref s p) \<and>
             (\<forall>target'. BackwardPass s layer target' rightLayer
                           = BackwardPass s layer target rightLayer)"
    by blast
qed

theorem BackwardPass_computes_witness:
  "(\<exists>err d s'. Subtract \<lparr>rows = 1, cols = 1, data = [9]\<rparr> fx_target = Inr err \<and>
      MultiplyElems err \<lparr>rows = 1, cols = 1, data = [1]\<rparr> = Inr d \<and>
      BackwardPass fx_state fx_out_layer fx_target fx_layer
        = Inr (fx_out_layer\<lparr>Delta := Suc (length (cells fx_state))\<rparr>, s') \<and>
      deref s' (Suc (length (cells fx_state))) = Inr d \<and>
      elem d 0 0 = (9 - 1) * 1) \<and>
   (\<exists>m d s'. Multiply \<lparr>rows = 1, cols = 1, data = [2]\<rparr> (T \<lparr>rows = 2, cols = 1, data = [5, 6]\<rparr>) = Inr m \<and>
      MultiplyElems m \<lparr>rows = 1, cols = 2, data = [2, 3]\<rparr> = Inr d \<and>
      BackwardPass fx_state fx_layer fx_target fx_out_layer
        = Inr (fx_layer\<lparr>Delta := Suc (length (cells fx_state))\<rparr>, s') \<and>
      deref s' (Suc (length (cells fx_state))) = Inr d \<and>
      elem d 0 0 = (0 + 2 * 5) * 2 \<and> elem d 0 1 = (0 + 2 * 6) * 3)"
proof -
  have g1: "deref fx_state (Gradient fx_out_layer) = Inr \<lparr>rows = 1, cols = 1, data = [1]\<rparr>"
    by (simp add: fx_state_def fx_out_layer_def deref_def valid_def)
  have g2: "deref fx_state (Gradient fx_layer) = Inr \<lparr>rows = 1, cols = 2, data = [2, 3]\<rparr>"
    by (simp add: fx_state_def fx_layer_def deref_def valid_def)
  have h1: "IsLastLayer fx_out_layer \<and>
      deref fx_state (Activations fx_out_layer) = Inr \<lparr>rows = 1, cols = 1, data = [9]\<rparr> \<and>
      rows fx_target = rows \<lparr>rows = 1, cols = 1, data = [9::int]\<rparr> \<and>
      cols fx_target = cols \<lparr>rows = 1, cols = 1, data = [9::int]\<rparr> \<and>
      rows \<lparr>rows = 1, cols = 1, data = [1::int]\<rparr> = rows \<lparr>rows = 1, cols = 1, data = [9::int]\<rparr> \<and>
      cols \<lparr>rows = 1, cols = 1, data = [1::int]\<rparr> = cols \<lparr>rows = 1, cols = 1, data = [9::int]\<rparr>"
    by (simp add: fx_state_def fx_out_layer_def fx_target_def deref_def valid_def)
  have h2: "\<not> IsLastLayer fx_layer \<and>
      deref fx_state (Delta fx_out_layer) = Inr \<lparr>rows = 1, cols = 1, data = [2]\<rparr> \<and>
      deref fx_state (Weights fx_out_layer) = Inr \<lparr>rows = 2, cols = 1, data = [5, 6]\<rparr> \<and>
      cols \<lparr>rows = 1, cols = 1, data = [2::int]\<rparr> = cols \<lparr>rows = 2, cols = 1, data = [5, 6::int]\<rparr> \<and>
      rows \<lparr>rows = 1, cols = 2, data = [2, 3::int]\<rparr> = rows \<lparr>rows = 1, cols = 1, data = [2::int]\<rparr> \<and>
      cols \<lparr>rows = 1, cols = 2, data = [2, 3::int]\<rparr> = rows \<lparr>rows = 2, cols = 1, data = [5, 6::int]\<rparr>"
    by (simp add: fx_state_def fx_out_layer_def fx_layer_def deref_def valid_def)
  from BackwardPass_computes [OF g1, THEN conjunct1, rule_format, OF h1]
  have c1: "\<exists>err d s'. Subtract \<lparr>rows = 1, cols = 1, data = [9]\<rparr> fx_target = Inr err \<and>
      MultiplyElems err \<lparr>rows = 1, cols = 1, data = [1]\<rparr> = Inr d \<and>
      BackwardPass fx_state fx_out_layer fx_target fx_layer
        = Inr (fx_out_layer\<lparr>Delta := Suc (length (cells fx_state))\<rparr>, s') \<and>
      deref s' (Suc (length (cells fx_state))) = Inr d \<and>
      elem d 0 0 = (9 - 1) * 1"
    by (fastforce simp: elem_def fx_target_def)
  from BackwardPass_computes [OF g2, THEN conjunct2, rule_format, OF h2]
  have c2: "\<exists>m d s'. Multiply \<lparr>rows = 1, cols = 1, data = [2]\<rparr> (T \<lparr>rows = 2, cols = 1, data = [5, 6]\<rparr>) = Inr m \<and>
      MultiplyElems m \<lparr>rows = 1, cols = 2, data = [2, 3]\<rparr> = Inr d \<and>
      BackwardPass fx_state fx_layer fx_target fx_out_layer
        = Inr (fx_layer\<lparr>Delta := Suc (length (cells fx_state))\<rparr>, s') \<and>
      deref s' (Suc (length (cells fx_state))) = Inr d \<and>
      elem d 0 0 = (0 + 2 * 5) * 2 \<and> elem d 0 1 = (0 + 2 * 6) * 3"
    by (fastforce simp: elem_def)
  from c1 c2 show ?thesis by blast
qed

text \<open>
  C3. One \<open>UpdateWeights\<close> step with learning rate \<open>\<eta>\<close>, left activations \<open>x\<close> (one
  row) and current delta \<open>\<delta>\<close> replaces the weights by \<open>weights - \<eta> \<cdot> (x\<^sup>T \<cdot> \<delta>)\<close> and the
  bias by \<open>bias - \<eta> \<cdot> \<delta>\<close>; the other fields of the layer and the cells that were in
  use stay as they are. This holds for every \<open>\<eta>\<close>, positive or not.
\<close>

theorem UpdateWeights_step:
  assumes D: "deref s (Delta layer) = Inr d"
    and W: "deref s (Weights layer) = Inr w"
    and B: "deref s (Bias layer) = Inr b"
    and shape: "rows leftA = 1" "cols leftA = rows w" "rows d = 1" "cols d = cols w"
      "rows b = 1" "cols b = cols w"
  shows "\<exists>ad w' b' s'.
           Multiply (T leftA) d = Inr ad \<and>
           Subtract w (Scale learningRate ad) = Inr w' \<and>
           Subtract b (Scale learningRate d) = Inr b' \<and>
           UpdateWeights s layer learningRate leftA
             = Inr (layer\<lparr>Weights := Suc (length (cells s)),
                          Bias := Suc (Suc (length (cells s)))\<rparr>, s') \<and>
           deref s' (Suc (length (cells s))) = Inr w' \<and>
           deref s' (Suc (Suc (length (cells s)))) = Inr b' \<and>
           rows w' = rows w \<and> cols w' = cols w \<and> rows b' = 1 \<and> cols b' = cols w \<and>
           (\<forall>i<rows w. \<forall>j<cols w.
              elem ad i j = dot (T leftA) d i j \<and>
              elem w' i j = elem w i j - learningRate * elem ad i j) \<and>
           (\<forall>j<cols w. elem b' 0 j = elem b 0 j - learningRate * elem d 0 j) \<and>
           (\<forall>p. valid s p \<longrightarrow> deref s' p = deref s p)"
proof -
  define ad where "ad = tabulate (rows (T leftA)) (cols d) (dot (T leftA) d)"
  define w' where
    "w' = tabulate (rows w) (cols w) (\<lambda>i j. elem w i j - elem (Scale learningRate ad) i j)"
  define b' where
    "b' = tabulate (rows b) (cols b) (\<lambda>i j. elem b i j - elem (Scale learningRate d) i j)"
  define s' where "s' = s\<lparr>cells := cells s @ [w', b']\<rparr>"
  have m: "Multiply (T leftA) d = Inr ad"
    using shape by (simp add: Multiply_def ad_def)
  have sw: "Subtract w (Scale learningRate ad) = Inr w'"
    using shape by (simp add: Subtract_def zip_elems_def ad_def w'_def)
  have sb: "Subtract b (Scale learningRate d) = Inr b'"
    using shape by (simp add: Subtract_def zip_elems_def b'_def)
  have run: "UpdateWeights s layer learningRate leftA
             = Inr (layer\<lparr>Weights := Suc (length (cells s)),
                          Bias := Suc (Suc (length (cells s)))\<rparr>, s')"
    unfolding s'_def by (rule UpdateWeights_succeeds [OF D m W sw B sb])
  have nw: "deref s' (Suc (length (cells s))) = Inr w'"
    and nb: "deref s' (Suc (Suc (length (cells s)))) = Inr b'"
    by (simp_all add: s'_def deref_def valid_def nth_append)
  have dims: "rows w' = rows w" "cols w' = cols w" "rows b' = 1" "cols b' = cols w"
    using shape by (simp_all add: w'_def b'_def)
  have ew: "\<forall>i<rows w. \<forall>j<cols w.
              elem ad i j = dot (T leftA) d i j \<and>
              elem w' i j = elem w i j - learningRate * elem ad i j"
    using shape by (simp add: w'_def ad_def Scale_def)
  have eb: "\<forall>j<cols w. elem b' 0 j = elem b 0 j - learningRate * elem d 0 j"
    using shape by (simp add: b'_def Scale_def)
  have frame: "\<forall>p. valid s p \<longrightarrow> deref s' p = deref s p"
    by (simp add: s'_def deref_append_old)
  from m sw sb run nw nb dims ew eb frame show ?thesis by blast
qed

theorem UpdateWeights_step_witness:
  "\<exists>ad w' b' s'.
     Multiply (T fx_input) \<lparr>rows = 1, cols = 2, data = [1, - 1]\<rparr> = Inr ad \<and>
     Subtract \<lparr>rows = 2, cols = 2, data = [1, 2, 3, 4]\<rparr> (Scale 3 ad) = Inr w' \<and>
     Subtract \<lparr>rows = 1, cols = 2, data = [10, 20]\<rparr>
       (Scale 3 \<lparr>rows = 1, cols = 2, data = [1, - 1]\<rparr>) = Inr b' \<and>
     UpdateWeights fx_state fx_layer 3 fx_input
       = Inr (fx_layer\<lparr>Weights := 11, Bias := 12\<rparr>, s') \<and>
     deref s' 11 = Inr w' \<and> deref s' 12 = Inr b' \<and>
     elem w' 1 1 = 4 - 3 * elem ad 1 1 \<and> elem ad 1 1 = dot (T fx_input) \<lparr>rows = 1, cols = 2, data = [1, - 1]\<rparr> 1 1 \<and>
     elem b' 0 1 = 20 - 3 * (- 1)"
proof -
  have D: "deref fx_state (Delta fx_layer) = Inr \<lparr>rows = 1, cols = 2, data = [1, - 1]\<rparr>"
    and W: "deref fx_state (Weights fx_layer) = Inr \<lparr>rows = 2, cols = 2, data = [1, 2, 3, 4]\<rparr>"
    and B: "deref fx_state (Bias fx_layer) = Inr \<lparr>rows = 1, cols = 2, data = [10, 20]\<rparr>"
    by (simp_all add: fx_state_def fx_layer_def deref_def valid_def)
  have len: "length (cells fx_state) = 10"
    by (simp add: fx_state_def)
  have sh: "rows fx_input = 1"
    "cols fx_input = rows \<lparr>rows = 2, cols = 2, data = [1, 2, 3, 4::int]\<rparr>"
    "rows \<lparr>rows = 1, cols = 2, data = [1, - 1::int]\<rparr> = 1"
    "cols \<lparr>rows = 1, cols = 2, data = [1, - 1::int]\<rparr>
       = cols \<lparr>rows = 2, cols = 2, data = [1, 2, 3, 4::int]\<rparr>"
    "rows \<lparr>rows = 1, cols = 2, data = [10, 20::int]\<rparr> = 1"
    "cols \<lparr>rows = 1, cols = 2, data = [10, 20::int]\<rparr>
       = cols \<lparr>rows = 2, cols = 2, data = [1, 2, 3, 4::int]\<rparr>"
    by (simp_all add: fx_input_def)
  from UpdateWeights_step [OF D W B sh, of 3]
  obtain ad w' b' s' where r:
    "Multiply (T fx_input) \<lparr>rows = 1, cols = 2, data = [1, - 1]\<rparr> = Inr ad"
    "Subtract \<lparr>rows = 2, cols = 2, data = [1, 2, 3, 4]\<rparr> (Scale 3 ad) = Inr w'"
    "Subtract \<lparr>rows = 1, cols = 2, data = [10, 20]\<rparr>
       (Scale 3 \<lparr>rows = 1, cols = 2, data = [1, - 1]\<rparr>) = Inr b'"
    "UpdateWeights fx_state fx_layer 3 fx_input
       = Inr (fx_layer\<lparr>Weights := Suc (length (cells fx_state)),
                Bias := Suc (Suc (length (cells fx_state)))\<rparr>, s')"
    "deref s' (Suc (length (cells fx_state))) = Inr w'"
    "deref s' (Suc (Suc (length (cells fx_state)))) = Inr b'"
    and ew: "\<forall>i<rows \<lparr>rows = 2, cols = 2, data = [1, 2, 3, 4::int]\<rparr>.
             \<forall>j<cols \<lparr>rows = 2, cols = 2, data = [1, 2, 3, 4::int]\<rparr>.
              elem ad i j = dot (T fx_input) \<lparr>rows = 1, cols = 2, data = [1, - 1]\<rparr> i j \<and>
              elem w' i j = elem \<lparr>rows = 2, cols = 2, data = [1, 2, 3, 4]\<rparr> i j - 3 * elem ad i j"
    and eb: "\<forall>j<cols \<lparr>rows = 2, cols = 2, data = [1, 2, 3, 4::int]\<rparr>.
              elem b' 0 j = elem \<lparr>rows = 1, cols = 2, data = [10, 20]\<rparr> 0 j
                             - 3 * elem \<lparr>rows = 1, cols = 2, data = [1, - 1]\<rparr> 0 j"
    by blast
  from ew [rule_format, of 1 1] have e1:
    "elem w' 1 1 = 4 - 3 * elem ad 1 1"
    "elem ad 1 1 = dot (T fx_input) \<lparr>rows = 1, cols = 2, data = [1, - 1]\<rparr> 1 1"
    by (simp_all add: elem_def)
  from eb [rule_format, of 1] have e2: "elem b' 0 1 = 20 - 3 * (- 1)"
    by (simp add: elem_def)
  from r e1 e2 show ?thesis
    by (simp add: len)
qed

text \<open>
  C10. \<open>Train\<close> with \<open>epochs \<le> 0\<close>, or with a batch of zero rows, runs no forward,
  backward or update step: when \<open>Layers[NumberOfLayers - 1]\<close> exists it returns with the
  network and the whole state (store and trace) as they were, and otherwise it panics at
  that first index expression, before anything is written.
\<close>

theorem Train_nothing_to_do:
  assumes "epochs \<le> 0 \<or> rows batchInput = 0"
  shows "Train s network batchInput batchTarget learningRate epochs =
           (if 1 \<le> NumberOfLayers network \<and> NumberOfLayers network \<le> int (length (Layers network))
            then Inr (network, s) else Inl IndexOutOfRange)"
proof -
  have "epoch_loop s network batchInput batchTarget learningRate epochs lastLayer
          = Inr (network, lastLayer, s)" for lastLayer
    using assms by (auto simp: epoch_loop_done epoch_loop_no_rows)
  then show ?thesis
    by (auto simp: Train_def index_def)
qed

theorem Train_nothing_to_do_witness:
  "(0::int) \<le> 0 \<and> rows fx_no_rows = 0 \<and>
   Train fx_state fx_network fx_input fx_target 3 0 = Inr (fx_network, fx_state) \<and>
   Train fx_state fx_network fx_no_rows fx_target 3 5 = Inr (fx_network, fx_state)"
  using Train_nothing_to_do [of 0 fx_input fx_state fx_network fx_target 3]
    Train_nothing_to_do [of 5 fx_no_rows fx_state fx_network fx_target 3]
  by (simp add: fx_network_def fx_no_rows_def)









text \<open>
  C7. \<open>Predict\<close> writes the cells of the layers' \<open>Activations\<close> and \<open>Gradient\<close> pointers and
  no other cell that was in use; it has no access to the layer structs. So in a network
  whose caches are matrices of their own (no cache pointer is the weights, bias or delta
  pointer of a layer, or another cache), the weights, bias and delta of every layer are
  the same before and after the call, and any number of further calls with the same input
  return the same output and leave them the same again.
\<close>

theorem Predict_writes_caches_only:
  assumes run: "Predict s network input = Inr (out, s')"
  shows "(\<forall>p. valid s p \<and> p \<notin> set (caches (Layers network)) \<longrightarrow> deref s' p = deref s p) \<and>
         (owned s (Layers network) \<longrightarrow>
            (\<forall>l \<in> set (Layers network).
               deref s' (Weights l) = deref s (Weights l) \<and>
               deref s' (Bias l) = deref s (Bias l) \<and>
               deref s' (Delta l) = deref s (Delta l)) \<and>
            (\<forall>n. \<exists>sn. Predict_times n s' network input = Inr (replicate n out, sn) \<and>
               (\<forall>l \<in> set (Layers network).
                  deref sn (Weights l) = deref s (Weights l) \<and>
                  deref sn (Bias l) = deref s (Bias l) \<and>
                  deref sn (Delta l) = deref s (Delta l))))"
proof (intro conjI impI allI)
  fix p assume "valid s p \<and> p \<notin> set (caches (Layers network))"
  with run show "deref s' p = deref s p"
    using forward_loop_frame [of s "Layers network" 0 input out s' p]
    by (simp add: Predict_def)
next
  assume o: "owned s (Layers network)"
  note k = Predict_keeps [OF run o]
  have mem: "Weights l \<in> set (params (Layers network)) \<and> Bias l \<in> set (params (Layers network))
      \<and> Delta l \<in> set (params (Layers network))" if "l \<in> set (Layers network)" for l
    using that by (auto simp: params_def)
  show "\<forall>l \<in> set (Layers network).
               deref s' (Weights l) = deref s (Weights l) \<and>
               deref s' (Bias l) = deref s (Bias l) \<and>
               deref s' (Delta l) = deref s (Delta l)"
    using k(2) mem by blast
  fix n
  from Predict_times_same [OF run o k(1) k(2), of n] obtain sn where
    "Predict_times n s' network input = Inr (replicate n out, sn)"
    "\<forall>p\<in>set (params (Layers network)). deref sn p = deref s p"
    by blast
  then show "\<exists>sn. Predict_times n s' network input = Inr (replicate n out, sn) \<and>
               (\<forall>l \<in> set (Layers network).
                  deref sn (Weights l) = deref s (Weights l) \<and>
                  deref sn (Bias l) = deref s (Bias l) \<and>
                  deref sn (Delta l) = deref s (Delta l))"
    using mem by blast
qed

theorem Predict_writes_caches_only_witness:
  "\<exists>out s'. Predict fx_state fx_network fx_input = Inr (out, s') \<and>
     owned fx_state (Layers fx_network) \<and>
     valid fx_state (Weights fx_layer) \<and> Weights fx_layer \<notin> set (caches (Layers fx_network)) \<and>
     deref s' (Weights fx_layer) = deref fx_state (Weights fx_layer) \<and>
     (\<forall>l \<in> set (Layers fx_network).
        deref s' (Weights l) = deref fx_state (Weights l) \<and>
        deref s' (Bias l) = deref fx_state (Bias l) \<and>
        deref s' (Delta l) = deref fx_state (Delta l)) \<and>
     (\<exists>sn. Predict_times 3 s' fx_network fx_input = Inr (replicate 3 out, sn))"
proof -
  have o: "owned fx_state (Layers fx_network)"
    by (simp add: owned_def fx_network_def fx_layer_def fx_out_layer_def fx_state_def valid_def)
  have w: "wired fx_state (Layers fx_network) (cols fx_input)"
    by (simp add: fx_network_def fx_layer_def fx_out_layer_def fx_state_def fx_input_def
          deref_def valid_def)
  have r: "rows fx_input = 1"
    by (simp add: fx_input_def)
  from forward_loop_runs [OF w o r, of 0] obtain out s' where
    run: "Predict fx_state fx_network fx_input = Inr (out, s')"
    by (auto simp: Predict_def)
  have v: "valid fx_state (Weights fx_layer) \<and> Weights fx_layer \<notin> set (caches (Layers fx_network))"
    by (simp add: fx_network_def fx_layer_def fx_out_layer_def fx_state_def valid_def)
  note t = Predict_writes_caches_only [OF run]
  from t [THEN conjunct1, rule_format, OF v]
  have a: "deref s' (Weights fx_layer) = deref fx_state (Weights fx_layer)" .
  from t [THEN conjunct2, rule_format, OF o]
  have b: "\<forall>l \<in> set (Layers fx_network).
        deref s' (Weights l) = deref fx_state (Weights l) \<and>
        deref s' (Bias l) = deref fx_state (Bias l) \<and>
        deref s' (Delta l) = deref fx_state (Delta l)"
    and c: "\<exists>sn. Predict_times 3 s' fx_network fx_input = Inr (replicate 3 out, sn)"
    by blast+
  from run o v a b c show ?thesis by blast
qed






end
